theory Spec2Isabelle
  imports Complex_Main
begin

section \<open>JavaScript values\<close>

text \<open>
  The values that \<^verbatim>\<open>JSON.parse\<close> produces. A number is a double; the finite ones are
  rationals, and the parser can also give the two infinities (\<^verbatim>\<open>1e999\<close>). \<^verbatim>\<open>NaN\<close> only
  arises from \<^verbatim>\<open>Number(...)\<close>. An object is the list of its own properties, each key once.
  \<^verbatim>\<open>undefined\<close> is \<open>None\<close> of \<open>json option\<close>. The strings that the program only
  passes on (paths, identifiers, messages, the strings inside parsed values) are lists of
  characters. The text that the program scans, what the decoder of the response body
  gives, is a list of Unicode code points: the decoder gives no surrogate, so the code
  units of the JavaScript string and these code points correspond one to one, and the
  operations used on that text (splitting at line feeds, the prefix \<^verbatim>\<open>data:\<close>,
  trimming) see the same in both.
\<close>

type_synonym codepoints = "int list"

definition ascii :: "string \<Rightarrow> codepoints" where
  "ascii s = map of_char s"

datatype number = Num rat | Infinity | NegInfinity | NaN

datatype json =
    JNull
  | JBool bool
  | JNumber number
  | JString string
  | JArray "json list"
  | JObject "(string \<times> json) list"

datatype error =
    Error string
  | SyntaxError
  | TypeError
  | Rejection string

text \<open>
  The built-ins of the runtime that the program calls and that are not part of the
  repository: \<^verbatim>\<open>JSON.parse\<close> (\<open>None\<close> when it throws a SyntaxError), the number that
  \<^verbatim>\<open>Number(...)\<close> gives for a string, an array or an object, and the string that a template
  literal gives for a value that is not a string, both for the values on which the
  conversion does not throw.
\<close>

record builtins =
  JSON_parse :: "codepoints \<Rightarrow> json option"
  ToNumber :: "json \<Rightarrow> number"
  ToString :: "json \<Rightarrow> string"

text \<open>\<^verbatim>\<open>v.k\<close> on a value that is neither null nor undefined, for the property names the
  program reads (none of them is a built-in property of strings, arrays or numbers).\<close>

fun getProp :: "json \<Rightarrow> string \<Rightarrow> json option" where
  "getProp (JObject kvs) k = map_of kvs k"
| "getProp v k = None"

text \<open>\<^verbatim>\<open>v[0]\<close> on a value that is neither null nor undefined.\<close>

fun getIndex0 :: "json \<Rightarrow> json option" where
  "getIndex0 (JArray xs) = (case xs of [] \<Rightarrow> None | x # _ \<Rightarrow> Some x)"
| "getIndex0 (JString s) = (case s of [] \<Rightarrow> None | c # _ \<Rightarrow> Some (JString [c]))"
| "getIndex0 (JObject kvs) = map_of kvs ''0''"
| "getIndex0 v = None"

definition nullish :: "json option \<Rightarrow> bool" where
  "nullish v = (v = None \<or> v = Some JNull)"

text \<open>Optional chaining: \<^verbatim>\<open>v?.k\<close> and \<^verbatim>\<open>v?.[0]\<close>.\<close>

definition optProp :: "json option \<Rightarrow> string \<Rightarrow> json option" where
  "optProp v k = (case v of None \<Rightarrow> None | Some JNull \<Rightarrow> None | Some x \<Rightarrow> getProp x k)"

definition optIndex0 :: "json option \<Rightarrow> json option" where
  "optIndex0 v = (case v of None \<Rightarrow> None | Some JNull \<Rightarrow> None | Some x \<Rightarrow> getIndex0 x)"

text \<open>\<^verbatim>\<open>v ?? d\<close>.\<close>

definition orElse :: "json option \<Rightarrow> json \<Rightarrow> json" where
  "orElse v d = (case v of None \<Rightarrow> d | Some JNull \<Rightarrow> d | Some x \<Rightarrow> x)"

text \<open>
  The conversion of a parsed value to a primitive throws a TypeError on an object that has
  a \<^verbatim>\<open>toString\<close> key: the value under the key is not callable, and the inherited
  \<^verbatim>\<open>valueOf\<close> gives back the object. An object without that key is converted by the
  inherited \<^verbatim>\<open>toString\<close>. An array is converted by joining its elements, each of them
  converted to a string unless it is null.
\<close>

fun unconvertible :: "json \<Rightarrow> bool" where
  "unconvertible (JObject kvs) = (map_of kvs ''toString'' \<noteq> None)"
| "unconvertible (JArray xs) = list_ex unconvertible xs"
| "unconvertible v = False"

text \<open>\<^verbatim>\<open>Number(v)\<close>.\<close>

definition Number_of :: "builtins \<Rightarrow> json \<Rightarrow> error + number" where
  "Number_of B v =
     (case v of
        JNumber n \<Rightarrow> Inr n
      | JBool b \<Rightarrow> Inr (Num (if b then 1 else 0))
      | JNull \<Rightarrow> Inr (Num 0)
      | _ \<Rightarrow> if unconvertible v then Inl TypeError else Inr (ToNumber B v))"

text \<open>\<^verbatim>\<open>`${v}`\<close> for a value taken from parsed JSON.\<close>

definition String_of :: "builtins \<Rightarrow> json \<Rightarrow> error + string" where
  "String_of B v =
     (case v of
        JString s \<Rightarrow> Inr s
      | _ \<Rightarrow> if unconvertible v then Inl TypeError else Inr (ToString B v))"

text \<open>Truthiness of an optional string: undefined and the empty string are falsy.\<close>

definition truthy :: "string option \<Rightarrow> bool" where
  "truthy s = (case s of None \<Rightarrow> False | Some x \<Rightarrow> x \<noteq> [])"

text \<open>Truthiness of a parsed JSON value.\<close>

definition truthy_json :: "json \<Rightarrow> bool" where
  "truthy_json v =
     (case v of
        JNull \<Rightarrow> False
      | JBool b \<Rightarrow> b
      | JNumber n \<Rightarrow> n \<noteq> Num 0 \<and> n \<noteq> NaN
      | JString s \<Rightarrow> s \<noteq> []
      | _ \<Rightarrow> True)"

section \<open>Strings\<close>

definition NL :: int where
  "NL = 0x0A"

definition startsWith :: "'a list \<Rightarrow> 'a list \<Rightarrow> bool" where
  "startsWith p s = (take (length p) s = p)"

text \<open>The white space and the line terminators of the language, as code points.\<close>

definition is_space :: "int \<Rightarrow> bool" where
  "is_space c =
     (c \<in> set [0x09, 0x0A, 0x0B, 0x0C, 0x0D, 0x20, 0xA0, 0x1680, 0x2028, 0x2029, 0x202F,
               0x205F, 0x3000, 0xFEFF] \<or>
      (0x2000 \<le> c \<and> c \<le> 0x200A))"

text \<open>\<^verbatim>\<open>s.trim()\<close>.\<close>

definition trim :: "codepoints \<Rightarrow> codepoints" where
  "trim s = rev (dropWhile is_space (rev (dropWhile is_space s)))"

definition consHd :: "'a \<Rightarrow> 'a list list \<Rightarrow> 'a list list" where
  "consHd c xs = (case xs of [] \<Rightarrow> [[c]] | x # r \<Rightarrow> (c # x) # r)"

text \<open>
  \<^verbatim>\<open>s.split(sep)\<close>: the separator is searched from the left, occurrences do not overlap,
  and the result always has a last element, the text after the last separator.
  With the empty separator the string is cut into its characters.
\<close>

function split :: "'a list \<Rightarrow> 'a list \<Rightarrow> 'a list list" where
  "split sep s =
     (if sep = [] then map (\<lambda>c. [c]) s
      else if startsWith sep s then [] # split sep (drop (length sep) s)
      else (case s of [] \<Rightarrow> [[]] | c # cs \<Rightarrow> consHd c (split sep cs)))"
  by pat_completeness auto
termination
proof (relation "measure (\<lambda>(sep, s). length s)")
  show "wf (measure (\<lambda>(sep :: 'a list, s :: 'a list). length s))"
    by simp
next
  fix sep s :: "'a list"
  assume nonempty: "sep \<noteq> []" and pre: "startsWith sep s"
  have "length sep \<le> length s"
    using pre unfolding startsWith_def by (metis length_take min.cobounded1)
  moreover have "1 \<le> length sep"
    using nonempty by (cases sep) simp_all
  ultimately have "length s - length sep < length s"
    by linarith
  then show "((sep, drop (length sep) s), (sep, s)) \<in> measure (\<lambda>(sep, s). length s)"
    by simp
next
  fix sep s :: "'a list" and c cs
  assume "s = c # cs"
  then show "((sep, cs), (sep, s)) \<in> measure (\<lambda>(sep, s). length s)"
    by simp
qed

declare split.simps [simp del]

section \<open>The decoder of server-sent events\<close>

text \<open>
  A generator is modelled by what it yields, in order, and by how it ends: \<open>None\<close> when
  it returns, \<open>Some e\<close> when it throws \<open>e\<close>. The consumer asks for every value, until
  the generator ends.
\<close>

type_synonym 'a gen = "'a list \<times> error option"

definition andThen :: "'a gen \<Rightarrow> 'a gen \<Rightarrow> 'a gen" where
  "andThen g h =
     (case g of
        (xs, Some e) \<Rightarrow> (xs, Some e)
      | (xs, None) \<Rightarrow> (case h of (ys, r) \<Rightarrow> (xs @ ys, r)))"

text \<open>The \<^verbatim>\<open>data:\<close> line of a segment, cut after the prefix and trimmed.\<close>

definition dataLine :: "codepoints \<Rightarrow> codepoints option" where
  "dataLine part =
     map_option (\<lambda>line. trim (drop 5 line))
       (find (startsWith (ascii ''data:'')) (split [NL] part))"

text \<open>The loop over the complete segments of one chunk.\<close>

fun emitParts :: "builtins \<Rightarrow> codepoints list \<Rightarrow> json gen" where
  "emitParts B [] = ([], None)"
| "emitParts B (part # parts) =
     (case dataLine part of
        None \<Rightarrow> emitParts B parts
      | Some d \<Rightarrow>
          if d = [] then emitParts B parts
          else (case JSON_parse B d of
                  None \<Rightarrow> ([], Some SyntaxError)
                | Some ev \<Rightarrow> andThen ([ev], None) (emitParts B parts)))"

text \<open>
  The cancellation signal of one call. \<open>reason\<close> is \<^verbatim>\<open>String(signal.reason)\<close>, or \<open>None\<close>
  when the reason is undefined. Whether the signal is aborted at a point where the
  program looks at it is given with the input of that point.
\<close>

record abort_signal =
  reason :: "string option"

definition abortError :: "abort_signal \<Rightarrow> error" where
  "abortError s = Error (case reason s of None \<Rightarrow> ''aborted'' | Some r \<Rightarrow> r)"

text \<open>
  \<^verbatim>\<open>new TextDecoder()\<close>: the UTF-8 decoder of the Encoding standard, which replaces what is
  not UTF-8 by U+FFFD, and the flag of the byte order mark. The state is kept from one
  chunk to the next.
\<close>

record decoder =
  code_point :: int
  bytes_seen :: nat
  bytes_needed :: nat
  lower_boundary :: int
  upper_boundary :: int
  BOM_seen :: bool

definition new_decoder :: decoder where
  "new_decoder =
     \<lparr>code_point = 0, bytes_seen = 0, bytes_needed = 0, lower_boundary = 0x80,
      upper_boundary = 0xBF, BOM_seen = False\<rparr>"

definition reset :: "decoder \<Rightarrow> decoder" where
  "reset d =
     d\<lparr>code_point := 0, bytes_seen := 0, bytes_needed := 0, lower_boundary := 0x80,
       upper_boundary := 0xBF\<rparr>"

text \<open>The handler of the decoder for a byte when no byte is needed: the state afterwards and
  the code points it gives.\<close>

definition lead_byte :: "decoder \<Rightarrow> int \<Rightarrow> decoder \<times> codepoints" where
  "lead_byte d b =
     (if b \<le> 0x7F then (d, [b])
      else if 0xC2 \<le> b \<and> b \<le> 0xDF then
        (d\<lparr>bytes_needed := 1, code_point := b mod 0x20\<rparr>, [])
      else if 0xE0 \<le> b \<and> b \<le> 0xEF then
        (d\<lparr>lower_boundary := (if b = 0xE0 then 0xA0 else 0x80),
           upper_boundary := (if b = 0xED then 0x9F else 0xBF),
           bytes_needed := 2, code_point := b mod 0x10\<rparr>, [])
      else if 0xF0 \<le> b \<and> b \<le> 0xF4 then
        (d\<lparr>lower_boundary := (if b = 0xF0 then 0x90 else 0x80),
           upper_boundary := (if b = 0xF4 then 0x8F else 0xBF),
           bytes_needed := 3, code_point := b mod 0x08\<rparr>, [])
      else (d, [0xFFFD]))"

text \<open>The handler for any byte. A byte outside the boundaries ends the sequence with an
  error and is read again as a first byte.\<close>

definition handler :: "decoder \<Rightarrow> int \<Rightarrow> decoder \<times> codepoints" where
  "handler d b =
     (if bytes_needed d = 0 then lead_byte d b
      else if b < lower_boundary d \<or> upper_boundary d < b then
        (case lead_byte (reset d) b of (d', out) \<Rightarrow> (d', 0xFFFD # out))
      else if bytes_seen d + 1 = bytes_needed d then
        (reset d, [code_point d * 0x40 + b mod 0x40])
      else
        (d\<lparr>lower_boundary := 0x80, upper_boundary := 0xBF,
           code_point := code_point d * 0x40 + b mod 0x40, bytes_seen := bytes_seen d + 1\<rparr>,
         []))"

text \<open>The code points that go to the output: the first one of the stream is dropped when it
  is the byte order mark.\<close>

fun serialize :: "bool \<Rightarrow> codepoints \<Rightarrow> bool \<times> codepoints" where
  "serialize seen [] = (seen, [])"
| "serialize seen (c # cs) =
     (if \<not> seen \<and> c = 0xFEFF then serialize True cs
      else (case serialize True cs of (seen', out) \<Rightarrow> (seen', c # out)))"

definition decode_byte :: "decoder \<Rightarrow> int \<Rightarrow> decoder \<times> codepoints" where
  "decode_byte d b =
     (case handler d b of
        (d', items) \<Rightarrow>
          (case serialize (BOM_seen d') items of
             (seen, out) \<Rightarrow> (d'\<lparr>BOM_seen := seen\<rparr>, out)))"

text \<open>\<^verbatim>\<open>decoder.decode(value, { stream: true })\<close> on the bytes of one chunk: the bytes of a
  sequence that the chunk does not end stay in the state.\<close>

fun decode :: "decoder \<Rightarrow> string \<Rightarrow> decoder \<times> codepoints" where
  "decode d [] = (d, [])"
| "decode d (b # bs) =
     (case decode_byte d (of_char b) of
        (d1, out) \<Rightarrow> (case decode d1 bs of (d2, rest) \<Rightarrow> (d2, out @ rest)))"

text \<open>
  One \<^verbatim>\<open>reader.read()\<close> of the response body: a chunk of bytes, the end of the stream, or
  a rejection. A body is the list of its reads, each with the value of
  \<^verbatim>\<open>signal.aborted\<close> at the head of that iteration; a list that runs out has ended.
\<close>

datatype read_result = Chunk string | Done | ReadRejected error

type_synonym body_stream = "(bool \<times> read_result) list"

fun parseSse_loop ::
  "builtins \<Rightarrow> abort_signal option \<Rightarrow> decoder \<Rightarrow> codepoints \<Rightarrow> body_stream \<Rightarrow> json gen" where
  "parseSse_loop B sig dec buffer [] = ([], None)"
| "parseSse_loop B sig dec buffer ((aborted, r) # rest) =
     (case (if aborted then sig else None) of
        Some s \<Rightarrow> ([], Some (abortError s))
      | None \<Rightarrow>
          (case r of
             Done \<Rightarrow> ([], None)
           | ReadRejected e \<Rightarrow> ([], Some e)
           | Chunk c \<Rightarrow>
               (case decode dec c of
                  (dec', decoded) \<Rightarrow>
                    (let parts = split [NL, NL] (buffer @ decoded)
                     in andThen (emitParts B (butlast parts))
                          (parseSse_loop B sig dec' (last parts) rest)))))"

definition parseSse :: "builtins \<Rightarrow> body_stream \<Rightarrow> abort_signal option \<Rightarrow> json gen" where
  "parseSse B body sig = parseSse_loop B sig new_decoder [] body"

text \<open>A body that arrives in the given chunks and then ends, with no cancellation.\<close>

definition chunked :: "string list \<Rightarrow> body_stream" where
  "chunked chunks = map (\<lambda>c. (False, Chunk c)) chunks"


section \<open>Numbers in messages\<close>

definition digit :: "nat \<Rightarrow> char" where
  "digit d =
     (if d = 0 then CHR ''0'' else if d = 1 then CHR ''1'' else if d = 2 then CHR ''2''
      else if d = 3 then CHR ''3'' else if d = 4 then CHR ''4'' else if d = 5 then CHR ''5''
      else if d = 6 then CHR ''6'' else if d = 7 then CHR ''7'' else if d = 8 then CHR ''8''
      else CHR ''9'')"

function show_nat :: "nat \<Rightarrow> string" where
  "show_nat n = (if n < 10 then [digit n] else show_nat (n div 10) @ [digit (n mod 10)])"
  by pat_completeness auto
termination
  by (relation "measure (\<lambda>n. n)") auto

declare show_nat.simps [simp del]

definition show_int :: "int \<Rightarrow> string" where
  "show_int i = (if i < 0 then CHR ''-'' # show_nat (nat (- i)) else show_nat (nat i))"

section \<open>Data model\<close>

datatype role = User | Assistant

text \<open>A message of a conversation. The text of an assistant message is whatever value the
  upstream item carried, a string in every well-formed stream.\<close>

record ConversationMessage =
  role :: role
  text' :: json

record usage =
  input_tokens :: number
  cached_input_tokens :: number
  output_tokens :: number

text \<open>The item of an \<^verbatim>\<open>item.started\<close> or \<^verbatim>\<open>item.completed\<close> event; its type is always
  \<^verbatim>\<open>agent_message\<close>.\<close>

record thread_item =
  item_id :: string
  item_text :: json

text \<open>The objects that the HTTP transport passes to \<^verbatim>\<open>JSON.stringify\<close> and yields.\<close>

datatype event =
    ThreadStarted string
  | TurnStarted
  | ItemStarted thread_item
  | ItemCompleted thread_item
  | TurnCompleted usage
  | TurnFailed string

text \<open>What \<^verbatim>\<open>run\<close> yields: a line of the subprocess as it is, or a stringified event.\<close>

datatype emitted = Raw string | Stringified event

record CodexExecArgs =
  input :: string
  baseUrl :: "string option"
  apiKey :: "string option"
  threadId :: "string option"
  images :: "string list option"
  model :: "string option"
  sandboxMode :: "string option"
  workingDirectory :: "string option"
  additionalDirectories :: "string list option"
  skipGitRepoCheck :: "bool option"
  outputSchemaFile :: "string option"
  modelReasoningEffort :: "string option"
  signal :: "abort_signal option"
  networkAccessEnabled :: "bool option"
  webSearchEnabled :: "bool option"
  approvalPolicy :: "string option"

text \<open>The fields of a \<^verbatim>\<open>CodexExec\<close> object.\<close>

record CodexExec =
  executablePath :: string
  envOverride :: "(string \<rightharpoonup> string) option"
  histories :: "string \<rightharpoonup> ConversationMessage list"

section \<open>The world outside the program\<close>

record request =
  url :: string
  http_method :: string
  headers :: "(string \<times> string) list"
  payload :: json

text \<open>A response: \<open>response_text\<close> is what \<^verbatim>\<open>response.text()\<close> resolves to (\<open>None\<close> when it
  rejects), \<open>body\<close> is \<^verbatim>\<open>response.body\<close> (\<open>None\<close> when it is null).\<close>

record http_response =
  ok :: bool
  status :: int
  response_text :: "string option"
  body :: "body_stream option"

datatype fetch_result = FetchRejected error | Response http_response

text \<open>A call of \<^verbatim>\<open>spawn\<close>, with the text that is then written to the input of the child.\<close>

record spawn_call =
  command :: string
  arguments :: "string list"
  environment :: "string \<rightharpoonup> string"
  kill_signal :: "abort_signal option"
  stdin_data :: string

text \<open>
  A spawned child.
  \<^item> \<open>has_stdin\<close>: it has an input channel.
  \<^item> \<open>stdin_error\<close>: the write to that channel fails (the child has closed it): after
    that many lines have been yielded, an \<^verbatim>\<open>error\<close> event is emitted on the channel, with
    that error. \<^verbatim>\<open>run\<close> has no listener for it.
  \<^item> \<open>stdout_lines\<close>: the lines that \<^verbatim>\<open>readline\<close> gives for its standard output
    (\<open>None\<close>: no output channel).
  \<^item> \<open>stderr_chunks\<close>: the chunks of its standard error (\<open>None\<close>: no such channel).
  \<^item> \<open>spawn_error\<close>: the error of an \<^verbatim>\<open>error\<close> event of the child that arrived before
    the loop over the lines ended.
  \<^item> \<open>exit_code\<close>: the code of its \<^verbatim>\<open>exit\<close> event (\<open>None\<close> is \<^verbatim>\<open>null\<close>, the child was
    killed by a signal).
  \<^item> \<open>exit_after_loop\<close>: the \<^verbatim>\<open>exit\<close> event is emitted after the loop over the lines
    has ended. The listener for it is registered only then, with \<^verbatim>\<open>child.once\<close>, and an
    event emitted earlier is not delivered to it.
\<close>

record child_process =
  has_stdin :: bool
  stdin_error :: "(nat \<times> error) option"
  stdout_lines :: "string list option"
  stderr_chunks :: "string list option"
  spawn_error :: "error option"
  exit_code :: "int option"
  exit_after_loop :: bool

record world =
  existsSync :: "string \<Rightarrow> bool"
  readFileSync :: "string \<Rightarrow> codepoints option"
  path_join :: "string \<Rightarrow> string \<Rightarrow> string"
  randomUUID :: string
  process_env :: "string \<rightharpoonup> string"
  spawn :: "spawn_call \<Rightarrow> child_process"
  aborted_at_entry :: bool
  aborted_in_wait :: bool
  fetch :: "request \<Rightarrow> fetch_result"

text \<open>How a call ends: the generator returns, it throws, it waits for ever on a promise
  that is never settled, or the whole Node process ends on an \<^verbatim>\<open>error\<close> event that has no
  listener.\<close>

datatype outcome = Returned | Threw error | NeverSettles | Crashed error

text \<open>What one call of \<^verbatim>\<open>run\<close> does: the values it yields, how it ends, the object
  afterwards, and the requests and the processes it started.\<close>

record run_result =
  yielded :: "emitted list"
  outcome :: outcome
  this :: CodexExec
  requests :: "request list"
  spawns :: "spawn_call list"


section \<open>The process transport\<close>

definition INTERNAL_ORIGINATOR_ENV :: string where
  "INTERNAL_ORIGINATOR_ENV = ''CODEX_INTERNAL_ORIGINATOR_OVERRIDE''"

definition TYPESCRIPT_SDK_ORIGINATOR :: string where
  "TYPESCRIPT_SDK_ORIGINATOR = ''codex_sdk_ts''"

definition show_bool :: "bool \<Rightarrow> string" where
  "show_bool b = (if b then ''true'' else ''false'')"

definition flag :: "string \<Rightarrow> string option \<Rightarrow> string list" where
  "flag name v = (case v of None \<Rightarrow> [] | Some x \<Rightarrow> if x = [] then [] else [name, x])"

definition repeated :: "string \<Rightarrow> string list option \<Rightarrow> string list" where
  "repeated name vs = (case vs of None \<Rightarrow> [] | Some xs \<Rightarrow> concat (map (\<lambda>x. [name, x]) xs))"

definition quoted_config :: "string \<Rightarrow> string option \<Rightarrow> string list" where
  "quoted_config key v =
     (case v of
        None \<Rightarrow> []
      | Some x \<Rightarrow> if x = [] then [] else [''--config'', key @ ''='' @ [CHR 0x22] @ x @ [CHR 0x22]])"

definition bool_config :: "string \<Rightarrow> bool option \<Rightarrow> string list" where
  "bool_config key v =
     (case v of None \<Rightarrow> [] | Some b \<Rightarrow> [''--config'', key @ ''='' @ show_bool b])"

definition commandArgs :: "CodexExecArgs \<Rightarrow> string list" where
  "commandArgs args =
     [''exec'', ''--experimental-json'']
     @ flag ''--model'' (model args)
     @ flag ''--sandbox'' (sandboxMode args)
     @ flag ''--cd'' (workingDirectory args)
     @ repeated ''--add-dir'' (additionalDirectories args)
     @ (if skipGitRepoCheck args = Some True then [''--skip-git-repo-check''] else [])
     @ flag ''--output-schema'' (outputSchemaFile args)
     @ quoted_config ''model_reasoning_effort'' (modelReasoningEffort args)
     @ bool_config ''sandbox_workspace_write.network_access'' (networkAccessEnabled args)
     @ bool_config ''features.web_search_request'' (webSearchEnabled args)
     @ quoted_config ''approval_policy'' (approvalPolicy args)
     @ repeated ''--image'' (images args)
     @ flag ''resume'' (threadId args)"

definition buildEnv :: "CodexExec \<Rightarrow> world \<Rightarrow> CodexExecArgs \<Rightarrow> (string \<rightharpoonup> string)" where
  "buildEnv self W args =
     (let env0 = (case envOverride self of Some e \<Rightarrow> e | None \<Rightarrow> process_env W);
          env1 = (if truthy (env0 INTERNAL_ORIGINATOR_ENV) then env0
                  else env0(INTERNAL_ORIGINATOR_ENV \<mapsto> TYPESCRIPT_SDK_ORIGINATOR));
          env2 = (if truthy (baseUrl args) then env1(''OPENAI_BASE_URL'' \<mapsto> the (baseUrl args))
                  else env1)
      in if truthy (apiKey args) then env2(''CODEX_API_KEY'' \<mapsto> the (apiKey args)) else env2)"

definition show_code :: "int option \<Rightarrow> string" where
  "show_code code = (case code of None \<Rightarrow> ''null'' | Some c \<Rightarrow> show_int c)"

definition exitMessage :: "int option \<Rightarrow> string list \<Rightarrow> string" where
  "exitMessage code stderrChunks =
     ''Codex Exec exited with code '' @ show_code code @ '': '' @ concat stderrChunks"

text \<open>The end of \<^verbatim>\<open>run\<close> after the loop over the lines: the exit listener is registered,
  the error of the child is thrown if there is one, then the promise of the listener is
  awaited. The promise is settled only if the \<^verbatim>\<open>exit\<close> event comes after that.\<close>

definition awaitExit :: "child_process \<Rightarrow> outcome" where
  "awaitExit child =
     (case spawn_error child of
        Some e \<Rightarrow> Threw e
      | None \<Rightarrow>
          if \<not> exit_after_loop child then NeverSettles
          else if exit_code child = Some 0 then Returned
          else Threw (Error (exitMessage (exit_code child)
                 (case stderr_chunks child of None \<Rightarrow> [] | Some cs \<Rightarrow> cs))))"

definition spawnCall :: "CodexExec \<Rightarrow> world \<Rightarrow> CodexExecArgs \<Rightarrow> spawn_call" where
  "spawnCall self W args =
     \<lparr>command = executablePath self, arguments = commandArgs args,
      environment = buildEnv self W args, kill_signal = signal args, stdin_data = input args\<rparr>"

definition runProcess :: "CodexExec \<Rightarrow> world \<Rightarrow> CodexExecArgs \<Rightarrow> run_result" where
  "runProcess self W args =
     (let call = spawnCall self W args;
          child = spawn W call
      in if \<not> has_stdin child then
           \<lparr>yielded = [], outcome = Threw (Error ''Child process has no stdin''),
            this = self, requests = [], spawns = [call]\<rparr>
         else
           (case stdout_lines child of
              None \<Rightarrow>
                \<lparr>yielded = [], outcome = Threw (Error ''Child process has no stdout''),
                 this = self, requests = [], spawns = [call]\<rparr>
            | Some lines \<Rightarrow>
                (case stdin_error child of
                   Some (n, e) \<Rightarrow>
                     \<lparr>yielded = map Raw (take n lines), outcome = Crashed e,
                      this = self, requests = [], spawns = [call]\<rparr>
                 | None \<Rightarrow>
                     \<lparr>yielded = map Raw lines, outcome = awaitExit child,
                      this = self, requests = [], spawns = [call]\<rparr>)))"

section \<open>The HTTP transport\<close>

text \<open>The three conversions are made in this order; the first that throws ends the call.\<close>

definition parseUsage :: "builtins \<Rightarrow> json option \<Rightarrow> error + usage" where
  "parseUsage B u =
     (case Number_of B (orElse (optProp u ''input_tokens'') (JNumber (Num 0))) of
        Inl e \<Rightarrow> Inl e
      | Inr inputTokens \<Rightarrow>
          (case Number_of B
                  (orElse (optProp (optProp u ''input_tokens_details'') ''cached_tokens'')
                     (JNumber (Num 0))) of
             Inl e \<Rightarrow> Inl e
           | Inr cachedTokens \<Rightarrow>
               (case Number_of B (orElse (optProp u ''output_tokens'') (JNumber (Num 0))) of
                  Inl e \<Rightarrow> Inl e
                | Inr outputTokens \<Rightarrow>
                    Inr \<lparr>input_tokens = inputTokens, cached_input_tokens = cachedTokens,
                         output_tokens = outputTokens\<rparr>)))"

definition role_name :: "role \<Rightarrow> string" where
  "role_name r = (case r of User \<Rightarrow> ''user'' | Assistant \<Rightarrow> ''assistant'')"

text \<open>The entry of the request for a stored message.\<close>

definition historyEntry :: "ConversationMessage \<Rightarrow> json" where
  "historyEntry entry =
     JObject
       [(''role'', JString (role_name (role entry))),
        (''content'',
         JArray [JObject [(''type'', JString (if role entry = Assistant then ''output_text''
                                                else ''input_text'')),
                          (''text'', text' entry)]])]"

text \<open>The entries of the stored messages, and the new user turn pushed after them.\<close>

definition buildInput :: "ConversationMessage list \<Rightarrow> string \<Rightarrow> json list" where
  "buildInput history inp =
     map historyEntry history @
     [JObject
        [(''role'', JString ''user''),
         (''content'',
          JArray [JObject [(''type'', JString ''input_text''), (''text'', JString inp)]])]]"

definition loadSchema :: "builtins \<Rightarrow> world \<Rightarrow> CodexExecArgs \<Rightarrow> error + json option" where
  "loadSchema B W args =
     (case outputSchemaFile args of
        None \<Rightarrow> Inr None
      | Some f \<Rightarrow>
          if f \<noteq> [] \<and> existsSync W f then
            (case readFileSync W f of
               None \<Rightarrow> Inl (Rejection ''readFileSync'')
             | Some content \<Rightarrow>
                 (case JSON_parse B content of
                    None \<Rightarrow> Inl SyntaxError
                  | Some v \<Rightarrow> Inr (Some v)))
          else Inr None)"

definition string_entry :: "string \<Rightarrow> string option \<Rightarrow> (string \<times> json) list" where
  "string_entry key v =
     (case v of None \<Rightarrow> [] | Some x \<Rightarrow> if x = [] then [] else [(key, JString x)])"

definition nested_bool_entry :: "string \<Rightarrow> string \<Rightarrow> bool option \<Rightarrow> (string \<times> json) list" where
  "nested_bool_entry key inner v =
     (case v of None \<Rightarrow> [] | Some b \<Rightarrow> [(key, JObject [(inner, JBool b)])])"

definition list_entry :: "string \<Rightarrow> string list option \<Rightarrow> (string \<times> json) list" where
  "list_entry key v =
     (case v of
        None \<Rightarrow> []
      | Some xs \<Rightarrow> if xs = [] then [] else [(key, JArray (map JString xs))])"

definition buildConfig :: "CodexExecArgs \<Rightarrow> (string \<times> json) list" where
  "buildConfig args =
     string_entry ''sandbox'' (sandboxMode args)
     @ string_entry ''model_reasoning_effort'' (modelReasoningEffort args)
     @ nested_bool_entry ''sandbox_workspace_write'' ''network_access'' (networkAccessEnabled args)
     @ nested_bool_entry ''features'' ''web_search_request'' (webSearchEnabled args)
     @ string_entry ''approval_policy'' (approvalPolicy args)
     @ list_entry ''additional_directories'' (additionalDirectories args)
     @ string_entry ''working_directory'' (workingDirectory args)"

definition schemaFormat :: "json option \<Rightarrow> (string \<times> json) list" where
  "schemaFormat schema =
     (case schema of
        None \<Rightarrow> []
      | Some v \<Rightarrow>
          if truthy_json v then
            [(''text'', JObject [(''format'',
                JObject [(''name'', JString ''codex_output_schema''),
                         (''type'', JString ''json_schema''),
                         (''strict'', JBool True),
                         (''schema'', v)])])]
          else [])"

definition buildBody :: "CodexExecArgs \<Rightarrow> json list \<Rightarrow> json option \<Rightarrow> json" where
  "buildBody args inp schema =
     JObject ([(''input'', JArray inp)]
       @ string_entry ''model'' (model args)
       @ schemaFormat schema
       @ list_entry ''images'' (images args)
       @ (if buildConfig args = [] then [] else [(''config'', JObject (buildConfig args))]))"

definition buildRequest :: "CodexExecArgs \<Rightarrow> json list \<Rightarrow> json option \<Rightarrow> request" where
  "buildRequest args inp schema =
     \<lparr>url = (case baseUrl args of None \<Rightarrow> ''undefined'' | Some b \<Rightarrow> b) @ ''/responses'',
      http_method = ''POST'',
      headers = [(''content-type'', ''application/json''),
                 (''originator'', TYPESCRIPT_SDK_ORIGINATOR)]
                @ (if truthy (apiKey args) then [(''authorization'', ''Bearer '' @ the (apiKey args))]
                   else []),
      payload = buildBody args inp schema\<rparr>"

definition resolveThreadId :: "world \<Rightarrow> CodexExecArgs \<Rightarrow> string" where
  "resolveThreadId W args =
     (case threadId args of None \<Rightarrow> ''thread_'' @ randomUUID W | Some t \<Rightarrow> t)"

definition getHistory :: "CodexExec \<Rightarrow> string \<Rightarrow> ConversationMessage list" where
  "getHistory self tid = (case histories self tid of None \<Rightarrow> [] | Some h \<Rightarrow> h)"

text \<open>The variables of the loop over the decoded events.\<close>

record loop_state =
  updatedHistory :: "ConversationMessage list"
  assistantCount :: nat
  completed :: bool
  failed :: bool

text \<open>
  The body of the loop for one decoded event: what it yields, and the variables afterwards
  or the error it throws. Reading \<^verbatim>\<open>event.type\<close> of null throws, and so does reading
  \<^verbatim>\<open>item.type\<close> of an item that is null or undefined, which happens only with a signal.
  The conversions of the usage and of the upstream message throw before anything is
  yielded for the event.
\<close>

definition handleEvent ::
  "builtins \<Rightarrow> abort_signal option \<Rightarrow> loop_state \<Rightarrow> json \<Rightarrow> emitted list \<times> (error + loop_state)" where
  "handleEvent B sig st ev =
     (if ev = JNull then ([], Inl TypeError)
      else if getProp ev ''type'' = Some (JString ''response.output_item.done'') then
        (let item = getProp ev ''item'';
             t = orElse (optProp (optIndex0 (optProp item ''content'')) ''text'') (JString []);
             pushed = updatedHistory st @ [\<lparr>role = Assistant, text' = t\<rparr>];
             threadItem = \<lparr>item_id = ''item_'' @ show_nat (assistantCount st), item_text = t\<rparr>;
             done = st\<lparr>updatedHistory := pushed, assistantCount := assistantCount st + 1\<rparr>
         in (case sig of
               None \<Rightarrow> ([Stringified (ItemCompleted threadItem)], Inr done)
             | Some s \<Rightarrow>
                 if nullish item then ([Stringified (ItemStarted threadItem)], Inl TypeError)
                 else if optProp item ''type'' = Some (JString ''function_call'') then
                   ([Stringified (ItemStarted threadItem)], Inl (abortError s))
                 else ([Stringified (ItemStarted threadItem),
                        Stringified (ItemCompleted threadItem)], Inr done)))
      else if getProp ev ''type'' = Some (JString ''response.completed'') then
        (case parseUsage B (optProp (getProp ev ''response'') ''usage'') of
           Inl e \<Rightarrow> ([], Inl e)
         | Inr usage \<Rightarrow>
             ([Stringified (TurnCompleted usage)], Inr (st\<lparr>completed := True\<rparr>)))
      else if getProp ev ''type'' = Some (JString ''error'') then
        (let m = optProp (getProp ev ''error'') ''message''
         in (case (if nullish m then Inr ''stream disconnected before completion''
                   else String_of B (the m)) of
               Inl e \<Rightarrow> ([], Inl e)
             | Inr message \<Rightarrow>
                 ([Stringified (TurnFailed
                     (''stream disconnected before completion: '' @ message))],
                  Inr (st\<lparr>failed := True\<rparr>))))
      else ([], Inr st))"

fun consume ::
  "builtins \<Rightarrow> abort_signal option \<Rightarrow> loop_state \<Rightarrow> json list \<Rightarrow> emitted list \<times> (error + loop_state)" where
  "consume B sig st [] = ([], Inr st)"
| "consume B sig st (ev # evs) =
     (case handleEvent B sig st ev of
        (ys, Inl e) \<Rightarrow> (ys, Inl e)
      | (ys, Inr st') \<Rightarrow> (case consume B sig st' evs of (zs, r) \<Rightarrow> (ys @ zs, r)))"

definition thrown :: "CodexExec \<Rightarrow> request list \<Rightarrow> emitted list \<Rightarrow> error \<Rightarrow> run_result" where
  "thrown self reqs ys e =
     \<lparr>yielded = ys, outcome = Threw e, this = self, requests = reqs, spawns = []\<rparr>"

definition failedTurn :: "CodexExec \<Rightarrow> request \<Rightarrow> emitted list \<Rightarrow> string \<Rightarrow> run_result" where
  "failedTurn self req ys message =
     \<lparr>yielded = ys @ [Stringified (TurnFailed message)], outcome = Returned, this = self,
      requests = [req], spawns = []\<rparr>"

text \<open>\<^verbatim>\<open>runHttp\<close> from the point where \<^verbatim>\<open>fetch\<close> has resolved with a response.\<close>

definition respond ::
  "CodexExec \<Rightarrow> builtins \<Rightarrow> CodexExecArgs \<Rightarrow> string \<Rightarrow> ConversationMessage list \<Rightarrow> request \<Rightarrow>
   http_response \<Rightarrow> run_result" where
  "respond self B args tid history req response =
     (let started = [Stringified (ThreadStarted tid), Stringified TurnStarted];
          init = \<lparr>updatedHistory = history @ [\<lparr>role = User, text' = JString (input args)\<rparr>],
                  assistantCount = 0, completed = False, failed = False\<rparr>
      in if \<not> ok response then
           failedTurn self req started
             (''request failed with status '' @ show_int (status response) @ '': '' @
              (case response_text response of
                 None \<Rightarrow> ''unexpected error while reading response body''
               | Some m \<Rightarrow> m))
         else
           (case body response of
              None \<Rightarrow>
                failedTurn self req started
                  ''stream disconnected before completion: missing response body''
            | Some stream \<Rightarrow>
                (case parseSse B stream (signal args) of
                   (events, ended) \<Rightarrow>
                     (case consume B (signal args) init events of
                        (ys, Inl e) \<Rightarrow> thrown self [req] (started @ ys) e
                      | (ys, Inr st) \<Rightarrow>
                          (case ended of
                             Some e \<Rightarrow> thrown self [req] (started @ ys) e
                           | None \<Rightarrow>
                               \<lparr>yielded = started @ ys @
                                  (if \<not> completed st \<and> \<not> failed st then
                                     [Stringified (TurnFailed
                                        ''stream disconnected before completion: missing completion event'')]
                                   else []),
                                outcome = Returned,
                                this = (if completed st then
                                          self\<lparr>histories := (histories self)(tid \<mapsto> updatedHistory st)\<rparr>
                                        else self),
                                requests = [req], spawns = []\<rparr>)))))"

text \<open>\<^verbatim>\<open>runHttp\<close> up to the call of \<^verbatim>\<open>fetch\<close>: the two looks at the signal, then the
  request, built from the stored history of the thread.\<close>

definition preflight :: "CodexExec \<Rightarrow> builtins \<Rightarrow> world \<Rightarrow> CodexExecArgs \<Rightarrow> error + request" where
  "preflight self B W args =
     (case (if aborted_at_entry W then signal args else None) of
        Some s \<Rightarrow> Inl (abortError s)
      | None \<Rightarrow>
          (case (if aborted_in_wait W then signal args else None) of
             Some s \<Rightarrow> Inl (abortError s)
           | None \<Rightarrow>
               (let history = getHistory self (resolveThreadId W args);
                    inp = buildInput history (input args)
                in (case loadSchema B W args of
                      Inl e \<Rightarrow> Inl e
                    | Inr schema \<Rightarrow> Inr (buildRequest args inp schema)))))"

definition runHttp :: "CodexExec \<Rightarrow> builtins \<Rightarrow> world \<Rightarrow> CodexExecArgs \<Rightarrow> run_result" where
  "runHttp self B W args =
     (case preflight self B W args of
        Inl e \<Rightarrow> thrown self [] [] e
      | Inr req \<Rightarrow>
          (case fetch W req of
             FetchRejected e \<Rightarrow> thrown self [req] [] e
           | Response response \<Rightarrow>
               (let tid = resolveThreadId W args
                in respond self B args tid (getHistory self tid) req response)))"

section \<open>The entry point\<close>

definition untrusted :: "world \<Rightarrow> CodexExecArgs \<Rightarrow> bool" where
  "untrusted W args =
     (truthy (workingDirectory args) \<and> skipGitRepoCheck args \<noteq> Some True \<and>
      \<not> existsSync W (path_join W (the (workingDirectory args)) ''.git''))"

definition run :: "CodexExec \<Rightarrow> builtins \<Rightarrow> world \<Rightarrow> CodexExecArgs \<Rightarrow> run_result" where
  "run self B W args =
     (if untrusted W args then thrown self [] [] (Error ''Not inside a trusted directory'')
      else if truthy (baseUrl args) then runHttp self B W args
      else runProcess self W args)"


section \<open>Notions used to state the properties\<close>

text \<open>\<^verbatim>\<open>parts.join(sep)\<close>.\<close>

fun join :: "'a list \<Rightarrow> 'a list list \<Rightarrow> 'a list" where
  "join sep [] = []"
| "join sep [x] = x"
| "join sep (x # y # ys) = x @ sep @ join sep (y # ys)"

text \<open>The text that the decoder gives for the bytes of a whole stream.\<close>

definition decoded :: "string \<Rightarrow> codepoints" where
  "decoded bytes = snd (decode new_decoder bytes)"

fun is_turn_completed :: "emitted \<Rightarrow> bool" where
  "is_turn_completed (Stringified (TurnCompleted u)) = True"
| "is_turn_completed y = False"

text \<open>The turn reached \<^verbatim>\<open>turn.completed\<close>: such an event is among the yielded ones.\<close>

fun reached_completed :: "emitted list \<Rightarrow> bool" where
  "reached_completed [] = False"
| "reached_completed (y # ys) = (is_turn_completed y \<or> reached_completed ys)"

text \<open>The texts of the \<^verbatim>\<open>item.completed\<close> events among the yielded ones, in order.\<close>

fun assistant_texts :: "emitted list \<Rightarrow> json list" where
  "assistant_texts [] = []"
| "assistant_texts (Stringified (ItemCompleted it) # ys) = item_text it # assistant_texts ys"
| "assistant_texts (y # ys) = assistant_texts ys"

definition assistantMessage :: "json \<Rightarrow> ConversationMessage" where
  "assistantMessage t = \<lparr>role = Assistant, text' = t\<rparr>"

definition userMessage :: "string \<Rightarrow> ConversationMessage" where
  "userMessage s = \<lparr>role = User, text' = JString s\<rparr>"

text \<open>The history that a completed turn stores: what was there, the new user message, and
  one assistant message for every completed item.\<close>

definition committed :: "CodexExec \<Rightarrow> world \<Rightarrow> CodexExecArgs \<Rightarrow> emitted list \<Rightarrow> ConversationMessage list" where
  "committed self W args ys =
     getHistory self (resolveThreadId W args) @ userMessage (input args) #
     map assistantMessage (assistant_texts ys)"

definition event_type :: "json \<Rightarrow> json option" where
  "event_type ev = getProp ev ''type''"

text \<open>The three values that \<^verbatim>\<open>parseUsage\<close> converts.\<close>

definition usage_values :: "json option \<Rightarrow> json list" where
  "usage_values u =
     [orElse (optProp u ''input_tokens'') (JNumber (Num 0)),
      orElse (optProp (optProp u ''input_tokens_details'') ''cached_tokens'') (JNumber (Num 0)),
      orElse (optProp u ''output_tokens'') (JNumber (Num 0))]"

text \<open>The events on which the body of the loop throws.\<close>

definition raises :: "abort_signal option \<Rightarrow> json \<Rightarrow> bool" where
  "raises sig ev =
     (if ev = JNull then True
      else if event_type ev = Some (JString ''response.output_item.done'') then
        (case sig of
           None \<Rightarrow> False
         | Some s \<Rightarrow> nullish (getProp ev ''item'') \<or>
                     optProp (getProp ev ''item'') ''type'' = Some (JString ''function_call''))
      else if event_type ev = Some (JString ''response.completed'') then
        list_ex unconvertible (usage_values (optProp (getProp ev ''response'') ''usage''))
      else if event_type ev = Some (JString ''error'') then
        (case optProp (getProp ev ''error'') ''message'' of
           None \<Rightarrow> False
         | Some m \<Rightarrow> unconvertible m)
      else False)"

fun any_raises :: "abort_signal option \<Rightarrow> json list \<Rightarrow> bool" where
  "any_raises sig [] = False"
| "any_raises sig (ev # evs) = (raises sig ev \<or> any_raises sig evs)"

text \<open>An event that sets one of the two flags of the loop.\<close>

definition is_final :: "json \<Rightarrow> bool" where
  "is_final ev =
     (event_type ev = Some (JString ''response.completed'') \<or>
      event_type ev = Some (JString ''error''))"

fun any_final :: "json list \<Rightarrow> bool" where
  "any_final [] = False"
| "any_final (ev # evs) = (is_final ev \<or> any_final evs)"

text \<open>The variables of the loop when it starts.\<close>

definition first_state :: "ConversationMessage list \<Rightarrow> string \<Rightarrow> loop_state" where
  "first_state history inp =
     \<lparr>updatedHistory = history @ [\<lparr>role = User, text' = JString inp\<rparr>], assistantCount = 0,
      completed = False, failed = False\<rparr>"

definition is_nonneg_int :: "number \<Rightarrow> bool" where
  "is_nonneg_int n = (case n of Num r \<Rightarrow> 0 \<le> r \<and> r = of_int \<lfloor>r\<rfloor> | _ \<Rightarrow> False)"

section \<open>Concrete data\<close>

text \<open>The byte of the line feed, and the bytes of a stream of events with the given data.\<close>

definition LF :: char where
  "LF = CHR 0x0A"

definition sse :: "string list \<Rightarrow> string" where
  "sse datas = concat (map (\<lambda>d. ''data: '' @ d @ [LF, LF]) datas)"

definition assistant_item :: "string \<Rightarrow> json" where
  "assistant_item t =
     JObject [(''type'', JString ''response.output_item.done''),
              (''item'', JObject [(''type'', JString ''message''),
                                   (''role'', JString ''assistant''),
                                   (''content'', JArray [JObject [(''type'', JString ''output_text''),
                                                                   (''text'', JString t)]])])]"

definition completed_event :: "(string \<times> json) list \<Rightarrow> json" where
  "completed_event u =
     JObject [(''type'', JString ''response.completed''),
              (''response'', JObject [(''id'', JString ''resp_1''), (''usage'', JObject u)])]"

definition demo_usage :: "(string \<times> json) list" where
  "demo_usage =
     [(''input_tokens'', JNumber (Num 42)),
      (''input_tokens_details'', JObject [(''cached_tokens'', JNumber (Num 12))]),
      (''output_tokens'', JNumber (Num 5))]"

definition error_event :: "string \<Rightarrow> json" where
  "error_event m =
     JObject [(''type'', JString ''error''), (''error'', JObject [(''message'', JString m)])]"

text \<open>The JSON texts of the examples, with the values that \<^verbatim>\<open>JSON.parse\<close> gives for them.\<close>

definition demo_texts :: "(string \<times> json) list" where
  \<open>demo_texts =
     [(''{"type":"response.created"}'', JObject [(''type'', JString ''response.created'')]),
      (''{"type":"response.output_item.done","item":{"type":"message","role":"assistant","content":[{"type":"output_text","text":"Hi!"}]}}'',
       assistant_item ''Hi!''),
      (''{"type":"response.output_item.done","item":{"type":"message","role":"assistant","content":[{"type":"output_text","text":"Bye!"}]}}'',
       assistant_item ''Bye!''),
      (''{"type":"response.completed","response":{"id":"resp_1","usage":{"input_tokens":42,"input_tokens_details":{"cached_tokens":12},"output_tokens":5}}}'',
       completed_event demo_usage),
      (''{"type":"error","error":{"message":"rate limit exceeded"}}'',
       error_event ''rate limit exceeded'')]\<close>

definition demo_parse :: "codepoints \<Rightarrow> json option" where
  "demo_parse = map_of (map (\<lambda>(t, v). (ascii t, v)) demo_texts)"

definition demo_builtins :: builtins where
  "demo_builtins =
     \<lparr>JSON_parse = demo_parse, ToNumber = (\<lambda>v. NaN), ToString = (\<lambda>v. ''[object Object]'')\<rparr>"

definition created_text :: string where
  "created_text = fst (demo_texts ! 0)"

definition hi_text :: string where
  "hi_text = fst (demo_texts ! 1)"

definition bye_text :: string where
  "bye_text = fst (demo_texts ! 2)"

definition completed_text :: string where
  "completed_text = fst (demo_texts ! 3)"

definition error_text :: string where
  "error_text = fst (demo_texts ! 4)"

definition demo_exec :: CodexExec where
  "demo_exec = \<lparr>executablePath = ''codex'', envOverride = None, histories = Map.empty\<rparr>"

definition demo_args :: CodexExecArgs where
  "demo_args =
     \<lparr>input = ''Hello, world!'', baseUrl = Some ''http://localhost:9'', apiKey = Some ''test'',
      threadId = Some ''thread_1'', images = None, model = None, sandboxMode = None,
      workingDirectory = None, additionalDirectories = None, skipGitRepoCheck = None,
      outputSchemaFile = None, modelReasoningEffort = None, signal = None,
      networkAccessEnabled = None, webSearchEnabled = None, approvalPolicy = None\<rparr>"

text \<open>A child that reads its input, writes the given lines and the given chunks of
  standard error, and exits with the given code after the loop over the lines has ended.\<close>

definition demo_child :: "string list \<Rightarrow> string list \<Rightarrow> int \<Rightarrow> child_process" where
  "demo_child lines errs code =
     \<lparr>has_stdin = True, stdin_error = None, stdout_lines = Some lines,
      stderr_chunks = Some errs, spawn_error = None, exit_code = Some code,
      exit_after_loop = True\<rparr>"

text \<open>A world with no file, where every request gets the given result and every spawned
  child is the given one.\<close>

definition demo_world :: "fetch_result \<Rightarrow> child_process \<Rightarrow> world" where
  "demo_world result child =
     \<lparr>existsSync = (\<lambda>p. False), readFileSync = (\<lambda>p. None),
      path_join = (\<lambda>a b. a @ ''/'' @ b), randomUUID = ''0000'',
      process_env = Map.empty, spawn = (\<lambda>c. child),
      aborted_at_entry = False, aborted_in_wait = False, fetch = (\<lambda>r. result)\<rparr>"

text \<open>
  A stream of two events in five chunks. It starts with a byte order mark, and the data of
  its first event starts with a no-break space. It is cut inside the byte order mark,
  inside the no-break space, inside the first event, and between the two line feeds of
  the delimiter.
\<close>

definition demo_chunks :: "string list" where
  "demo_chunks =
     [[CHR 0xEF, CHR 0xBB],
      CHR 0xBF # ''data:'' @ [CHR 0xC2],
      CHR 0xA0 # take 30 hi_text,
      drop 30 hi_text @ [LF],
      LF # ''data: '' @ completed_text @ [LF, LF]]"

definition streaming :: "string list \<Rightarrow> fetch_result" where
  "streaming chunks =
     Response \<lparr>ok = True, status = 200, response_text = None, body = Some (chunked chunks)\<rparr>"

definition quiet_child :: child_process where
  "quiet_child = demo_child [] [] 0"

text \<open>The endpoint answers with one assistant message and a completion.\<close>

definition hi_world :: world where
  "hi_world = demo_world (streaming [sse [created_text, hi_text, completed_text]]) quiet_child"

text \<open>The endpoint answers with two assistant messages and a completion.\<close>

definition two_items_world :: world where
  "two_items_world =
     demo_world (streaming [sse [created_text, hi_text, bye_text, completed_text]]) quiet_child"

text \<open>The stream ends after one assistant message, with no completion and no error.\<close>

definition incomplete_world :: world where
  "incomplete_world = demo_world (streaming [sse [created_text, hi_text]]) quiet_child"

text \<open>The stream ends with an error event.\<close>

definition error_world :: world where
  "error_world = demo_world (streaming [sse [created_text, error_text]]) quiet_child"

text \<open>The stream has an error event and then a completion.\<close>

definition error_then_completed_world :: world where
  "error_then_completed_world =
     demo_world (streaming [sse [error_text, completed_text]]) quiet_child"

definition failing_response :: http_response where
  "failing_response = \<lparr>ok = False, status = 500, response_text = Some ''boom'', body = None\<rparr>"

definition failing_world :: world where
  "failing_world = demo_world (Response failing_response) quiet_child"

definition bodiless_response :: http_response where
  "bodiless_response = \<lparr>ok = True, status = 200, response_text = None, body = None\<rparr>"

definition bodiless_world :: world where
  "bodiless_world = demo_world (Response bodiless_response) quiet_child"

text \<open>The request fails: \<^verbatim>\<open>fetch\<close> rejects.\<close>

definition rejected_world :: world where
  "rejected_world = demo_world (FetchRejected (Rejection ''ECONNREFUSED'')) quiet_child"

text \<open>The request of the first turn of the examples.\<close>

definition demo_request :: request where
  "demo_request = buildRequest demo_args (buildInput [] ''Hello, world!'') None"




text \<open>Arguments without a remote endpoint, and children that write two lines.\<close>

definition process_args :: CodexExecArgs where
  "process_args = demo_args\<lparr>baseUrl := None\<rparr>"

definition succeeding_world :: world where
  "succeeding_world =
     demo_world (FetchRejected (Rejection ''unused'')) (demo_child [''first'', ''second''] [] 0)"

definition exiting_world :: world where
  "exiting_world =
     demo_world (FetchRejected (Rejection ''unused''))
       (demo_child [''first'', ''second''] [''bad '', ''input''] 3)"

text \<open>The child of the spawn mock of the repository's tests: it writes nothing and emits
  its exit, with code 0, as soon as it is spawned.\<close>

definition mock_child :: child_process where
  "mock_child = (demo_child [] [] 0)\<lparr>exit_after_loop := False\<rparr>"

definition mock_world :: world where
  "mock_world = demo_world (FetchRejected (Rejection ''unused'')) mock_child"

text \<open>A child that writes two lines and exits with code 3 before the loop over the lines
  has ended.\<close>

definition early_exit_world :: world where
  "early_exit_world =
     demo_world (FetchRejected (Rejection ''unused''))
       ((demo_child [''first'', ''second''] [''bad '', ''input''] 3)\<lparr>exit_after_loop := False\<rparr>)"

text \<open>Arguments with a working directory, which in these worlds has no \<^verbatim>\<open>.git\<close>.\<close>

definition untrusted_process_args :: CodexExecArgs where
  "untrusted_process_args = process_args\<lparr>workingDirectory := Some ''/tmp/work''\<rparr>"

definition untrusted_http_args :: CodexExecArgs where
  "untrusted_http_args = demo_args\<lparr>workingDirectory := Some ''/tmp/work''\<rparr>"

definition demo_state :: loop_state where
  "demo_state =
     \<lparr>updatedHistory = [userMessage ''Hello, world!''], assistantCount = 0,
      completed = False, failed = False\<rparr>"

definition negative_usage :: "(string \<times> json) list" where
  "negative_usage = [(''input_tokens'', JNumber (Num (- 5)))]"

text \<open>A usage whose input tokens are an object with a \<^verbatim>\<open>toString\<close> key.\<close>

definition unconvertible_usage :: "(string \<times> json) list" where
  "unconvertible_usage = [(''input_tokens'', JObject [(''toString'', JNumber (Num 1))])]"

section \<open>Splitting and decoding\<close>

lemma split_nonempty: "sep \<noteq> [] \<Longrightarrow> split sep s \<noteq> []"
  apply (subst split.simps) 
  apply (simp add: consHd_def split: list.splits)
  done

lemma not_startsWith_short: "length s < length sep \<Longrightarrow> \<not> startsWith sep s"
  unfolding startsWith_def
proof
  assume a: "length s < length sep" and b: "take (length sep) s = sep"
  have "length (take (length sep) s) = length s" using a by simp
  with a b show False by simp
qed

lemma split_Nil: "sep \<noteq> [] \<Longrightarrow> split sep [] = [[]]"
  by (subst split.simps) (simp add: startsWith_def)

lemma split_Cons: "sep \<noteq> [] \<Longrightarrow> \<not> startsWith sep (c # cs) \<Longrightarrow> split sep (c # cs) = consHd c (split sep cs)"
  by (subst split.simps) simp

lemma split_match: "sep \<noteq> [] \<Longrightarrow> startsWith sep s \<Longrightarrow> split sep s = [] # split sep (drop (length sep) s)"
  by (subst split.simps) simp

lemma split_short: "sep \<noteq> [] \<Longrightarrow> length s < length sep \<Longrightarrow> split sep s = [s]"
proof (induction s)
  case Nil
  then show ?case by (simp add: split_Nil)
next
  case (Cons c cs)
  have "\<not> startsWith sep (c # cs)"
    using Cons.prems(2) by (rule not_startsWith_short)
  moreover have "split sep cs = [cs]"
    using Cons by simp
  ultimately show ?case
    using Cons.prems(1) by (simp add: split_Cons consHd_def)
qed

lemma split_single: "sep \<noteq> [] \<Longrightarrow> split sep s = [x] \<Longrightarrow> x = s"
proof (induction s arbitrary: x)
  case Nil
  then show ?case by (simp add: split_Nil)
next
  case (Cons c cs)
  note ne = Cons.prems(1)
  show ?case
  proof (cases "startsWith sep (c # cs)")
    case True
    with Cons.prems split_nonempty[OF ne, of "drop (length sep) (c # cs)"] show ?thesis
      by (simp add: split_match)
  next
    case False
    with Cons.prems have eq: "consHd c (split sep cs) = [x]"
      by (simp add: split_Cons)
    then obtain y where y: "split sep cs = [y]" "x = c # y"
      using split_nonempty[OF ne, of cs]
      by (auto simp: consHd_def split: list.splits)
    from Cons.IH[OF ne y(1)] y(2) show ?thesis by simp
  qed
qed

lemma split_append:
  "sep \<noteq> [] \<Longrightarrow>
   split sep (p @ q) = butlast (split sep p) @ split sep (last (split sep p) @ q)"
proof (induction sep p rule: split.induct)
  case (1 sep p)
  note ne = "1.prems"
  show ?case
  proof (cases "startsWith sep p")
    case True
    have len: "length sep \<le> length p"
    proof (rule ccontr)
      assume "\<not> length sep \<le> length p"
      then have "\<not> startsWith sep p" by (intro not_startsWith_short) simp
      with True show False by simp
    qed
    have pq: "startsWith sep (p @ q)"
      using True len unfolding startsWith_def by simp
    have sp: "split sep p = [] # split sep (drop (length sep) p)"
      using ne True by (rule split_match)
    have spq: "split sep (p @ q) = [] # split sep (drop (length sep) p @ q)"
      using split_match[OF ne pq] len by simp
    from "1.IH"(1)[OF ne True ne] split_nonempty[OF ne, of "drop (length sep) p"]
    show ?thesis
      by (simp add: sp spq)
  next
    case False
    show ?thesis
    proof (cases p)
      case Nil
      then show ?thesis using ne by (simp add: split_Nil)
    next
      case (Cons c cs)
      have sp: "split sep p = consHd c (split sep cs)"
        using ne False Cons by (simp add: split_Cons)
      show ?thesis
      proof (cases "length p < length sep")
        case True
        then show ?thesis using split_short[OF ne True] by simp
      next
        case long: False
        have npq: "\<not> startsWith sep (p @ q)"
          using False long unfolding startsWith_def by simp
        have spq: "split sep (p @ q) = consHd c (split sep (cs @ q))"
          using ne npq Cons by (simp add: split_Cons)
        note IH = "1.IH"(2)[OF ne False Cons ne]
        show ?thesis
        proof (cases "split sep cs")
          case Nil
          then show ?thesis using split_nonempty[OF ne, of cs] by simp
        next
          case (Cons x xs)
          note c1 = Cons
          show ?thesis
          proof (cases xs)
            case Nil
            with c1 have "x = cs" using split_single[OF ne, of cs x] by simp
            with Nil c1 have a: "consHd c (split sep cs) = [c # cs]"
              by (simp add: consHd_def)
            show ?thesis
              unfolding sp a using \<open>p = c # cs\<close> by simp
          next
            case (Cons y ys)
            with c1 have a: "consHd c (split sep cs) = (c # x) # y # ys"
              by (simp add: consHd_def)
            have b: "split sep (cs @ q) = x # butlast (y # ys) @ split sep (last (y # ys) @ q)"
              using IH c1 Cons by simp
            show ?thesis
              unfolding sp spq a b by (simp add: consHd_def)
          qed
        qed
      qed
    qed
  qed
qed


lemma split_last_stable:
  "sep \<noteq> [] \<Longrightarrow> split sep (last (split sep s)) = [last (split sep s)]"
proof (induction sep s rule: split.induct)
  case (1 sep s)
  note ne = "1.prems"
  show ?case
  proof (cases "startsWith sep s")
    case True
    with "1.IH"(1)[OF ne True ne] split_nonempty[OF ne, of "drop (length sep) s"] show ?thesis
      by (simp add: split_match[OF ne True])
  next
    case False
    show ?thesis
    proof (cases s)
      case Nil
      then show ?thesis using ne by (simp add: split_Nil)
    next
      case (Cons c cs)
      have sp: "split sep s = consHd c (split sep cs)"
        using ne False Cons by (simp add: split_Cons)
      note IH = "1.IH"(2)[OF ne False Cons ne]
      show ?thesis
      proof (cases "split sep cs")
        case Nil
        then show ?thesis using split_nonempty[OF ne, of cs] by simp
      next
        case c1: (Cons x xs)
        show ?thesis
        proof (cases xs)
          case Nil
          with c1 have "x = cs" using split_single[OF ne, of cs x] by simp
          with Nil c1 have "split sep s = [s]"
            using sp Cons by (simp add: consHd_def)
          then show ?thesis by simp
        next
          case (Cons y ys)
          with c1 have "last (split sep s) = last (split sep cs)"
            using sp by (simp add: consHd_def)
          with IH show ?thesis by simp
        qed
      qed
    qed
  qed
qed


lemma join_consHd: "join sep (consHd c xs) = c # join sep xs"
proof (cases xs)
  case Nil
  then show ?thesis by (simp add: consHd_def)
next
  case (Cons x r)
  then show ?thesis by (cases r) (simp_all add: consHd_def)
qed

lemma join_split: "sep \<noteq> [] \<Longrightarrow> join sep (split sep s) = s"
proof (induction sep s rule: split.induct)
  case (1 sep s)
  note ne = "1.prems"
  show ?case
  proof (cases "startsWith sep s")
    case True
    then have s: "sep @ drop (length sep) s = s"
      unfolding startsWith_def by (metis append_take_drop_id)
    obtain x xs where x: "split sep (drop (length sep) s) = x # xs"
      using split_nonempty[OF ne, of "drop (length sep) s"] by (cases "split sep (drop (length sep) s)") auto
    from "1.IH"(1)[OF ne True ne] x s show ?thesis
      by (simp add: split_match[OF ne True])
  next
    case False
    show ?thesis
    proof (cases s)
      case Nil
      then show ?thesis using ne by (simp add: split_Nil)
    next
      case (Cons c cs)
      from "1.IH"(2)[OF ne False Cons ne] ne False Cons
      show ?thesis by (simp add: split_Cons join_consHd)
    qed
  qed
qed

lemma butlast_join_delimited:
  "seg \<in> set (butlast xs) \<Longrightarrow> \<exists>pre post. join sep xs = pre @ seg @ sep @ post"
proof (induction sep xs rule: join.induct)
  case (1 sep)
  then show ?case by simp
next
  case (2 sep x)
  then show ?case by simp
next
  case (3 sep x y ys)
  from "3.prems" have "seg = x \<or> seg \<in> set (butlast (y # ys))" by simp
  then show ?case
  proof
    assume "seg = x"
    then have "join sep (x # y # ys) = [] @ seg @ sep @ join sep (y # ys)" by simp
    then show ?thesis by blast
  next
    assume "seg \<in> set (butlast (y # ys))"
    from "3.IH"[OF this] obtain pre post where "join sep (y # ys) = pre @ seg @ sep @ post"
      by blast
    then have "join sep (x # y # ys) = (x @ sep @ pre) @ seg @ sep @ post" by simp
    then show ?thesis by blast
  qed
qed

lemma butlast_split_delimited:
  assumes "sep \<noteq> []" and "seg \<in> set (butlast (split sep s))"
  shows "\<exists>pre post. s = pre @ seg @ sep @ post"
  using butlast_join_delimited[OF assms(2), of sep] join_split[OF assms(1), of s] by simp

lemma andThen_unit [simp]: "andThen ([], None) h = h" "andThen g ([], None) = g"
  by (auto simp: andThen_def split: prod.splits option.splits)

lemma andThen_assoc: "andThen (andThen f g) h = andThen f (andThen g h)"
  by (auto simp: andThen_def split: prod.splits option.splits)

lemma emitParts_append: "emitParts B (xs @ ys) = andThen (emitParts B xs) (emitParts B ys)"
proof (induction xs)
  case Nil
  show ?case by simp
next
  case (Cons x xs)
  then show ?case
    by (simp add: andThen_assoc split: option.splits) (simp add: andThen_def)
qed

lemma emitParts_origin:
  "ev \<in> set (fst (emitParts B parts)) \<Longrightarrow>
   \<exists>part d. part \<in> set parts \<and> dataLine part = Some d \<and> d \<noteq> [] \<and> JSON_parse B d = Some ev"
proof (induction parts)
  case Nil
  then show ?case by simp
next
  case (Cons p ps)
  show ?case
  proof (cases "dataLine p")
    case None
    with Cons show ?thesis by auto
  next
    case (Some d)
    show ?thesis
    proof (cases "d = []")
      case True
      with Some Cons show ?thesis by auto
    next
      case False
      show ?thesis
      proof (cases "JSON_parse B d")
        case None
        with Some False Cons.prems show ?thesis by simp
      next
        case (Some e)
        with \<open>dataLine p = Some d\<close> False Cons.prems
        have "ev = e \<or> ev \<in> set (fst (emitParts B ps))"
          by (auto simp: andThen_def split: prod.splits)
        then show ?thesis
        proof
          assume "ev = e"
          with Some \<open>dataLine p = Some d\<close> False show ?thesis by auto
        next
          assume "ev \<in> set (fst (emitParts B ps))"
          from Cons.IH[OF this] show ?thesis by auto
        qed
      qed
    qed
  qed
qed

lemma decode_append:
  "decode d (a @ b) =
     (case decode d a of (d1, t1) \<Rightarrow> (case decode d1 b of (d2, t2) \<Rightarrow> (d2, t1 @ t2)))"
  by (induction a arbitrary: d) (auto split: prod.splits)

lemma decoded_append:
  "snd (decode d (a @ b)) = snd (decode d a) @ snd (decode (fst (decode d a)) b)"
  by (simp add: decode_append split: prod.splits)

lemma parseSse_loop_chunked:
  "split [NL, NL] buffer = [buffer] \<Longrightarrow>
   parseSse_loop B sig d buffer (chunked chunks) =
   emitParts B (butlast (split [NL, NL] (buffer @ snd (decode d (concat chunks)))))"
proof (induction chunks arbitrary: d buffer)
  case Nil
  then show ?case by (simp add: chunked_def)
next
  case (Cons c cs)
  obtain d1 t1 where dec: "decode d c = (d1, t1)" by (cases "decode d c")
  let ?parts = "split [NL, NL] (buffer @ t1)"
  let ?rest = "snd (decode d1 (concat cs))"
  have stable: "split [NL, NL] (last ?parts) = [last ?parts]"
    by (rule split_last_stable) simp
  have ne: "split [NL, NL] (last ?parts @ ?rest) \<noteq> []"
    by (rule split_nonempty) simp
  have whole: "snd (decode d (c @ concat cs)) = t1 @ ?rest"
    using dec by (simp add: decoded_append)
  have "parseSse_loop B sig d buffer (chunked (c # cs)) =
        andThen (emitParts B (butlast ?parts)) (parseSse_loop B sig d1 (last ?parts) (chunked cs))"
    using dec by (simp add: chunked_def Let_def)
  also have "\<dots> = emitParts B (butlast ?parts @ butlast (split [NL, NL] (last ?parts @ ?rest)))"
    using Cons.IH[OF stable, of d1] by (simp add: emitParts_append)
  also have "butlast ?parts @ butlast (split [NL, NL] (last ?parts @ ?rest)) =
             butlast (split [NL, NL] ((buffer @ t1) @ ?rest))"
    using ne by (subst split_append[of "[NL, NL]" "buffer @ t1"]) (simp_all add: butlast_append)
  finally show ?case by (simp add: whole)
qed

section \<open>Properties of the decoder\<close>

text \<open>
  C3. The decoder does not depend on the chunk boundaries: whatever the byte chunks in
  which a stream arrives, also when they cut a character, the byte order mark or the
  delimiter, decoding them one after the other yields the same events in the same order,
  and ends in the same way, as decoding the whole stream as one chunk. The decoded text
  of the stream is its segments joined by the blank-line delimiter, and the decoder
  yields what the segments before the last one give, so that the text after the last
  delimiter gives nothing: every event that is yielded comes from a segment of the stream
  that is followed by the delimiter.
\<close>

theorem parseSse_chunk_invariant:
  "parseSse B (chunked chunks) sig = parseSse B (chunked [concat chunks]) sig \<and>
   join [NL, NL] (split [NL, NL] (decoded (concat chunks))) = decoded (concat chunks) \<and>
   parseSse B (chunked chunks) sig =
     emitParts B (butlast (split [NL, NL] (decoded (concat chunks)))) \<and>
   (\<forall>ev \<in> set (fst (parseSse B (chunked chunks) sig)).
      \<exists>pre seg post d. decoded (concat chunks) = pre @ seg @ [NL, NL] @ post \<and>
        dataLine seg = Some d \<and> d \<noteq> [] \<and> JSON_parse B d = Some ev)"
proof -
  have init: "split [NL, NL] [] = [[]]"
    by (simp add: split_Nil)
  have all: "parseSse B (chunked cs) sig = emitParts B (butlast (split [NL, NL] (decoded (concat cs))))"
    for cs
    unfolding parseSse_def decoded_def
    using parseSse_loop_chunked[OF init, of B sig new_decoder cs] by simp
  have inv: "parseSse B (chunked chunks) sig = parseSse B (chunked [concat chunks]) sig"
    by (simp add: all)
  have orig: "\<exists>pre seg post d. decoded (concat chunks) = pre @ seg @ [NL, NL] @ post \<and>
        dataLine seg = Some d \<and> d \<noteq> [] \<and> JSON_parse B d = Some ev"
    if "ev \<in> set (fst (parseSse B (chunked chunks) sig))" for ev
  proof -
    from that have "ev \<in> set (fst (emitParts B (butlast (split [NL, NL] (decoded (concat chunks))))))"
      by (simp add: all)
    from emitParts_origin[OF this] obtain seg d where
      seg: "seg \<in> set (butlast (split [NL, NL] (decoded (concat chunks))))" and
      d: "dataLine seg = Some d" "d \<noteq> []" "JSON_parse B d = Some ev"
      by blast
    have "[NL, NL] \<noteq> []" by simp
    from butlast_split_delimited[OF this seg] obtain pre post where
      "decoded (concat chunks) = pre @ seg @ [NL, NL] @ post" by blast
    with d show ?thesis by blast
  qed
  have joined: "join [NL, NL] (split [NL, NL] (decoded (concat chunks))) = decoded (concat chunks)"
    by (rule join_split) simp
  from inv joined all[of chunks] orig show ?thesis by blast
qed

theorem parseSse_chunk_invariant_witness:
  "assistant_item ''Hi!'' \<in> set (fst (parseSse demo_builtins (chunked demo_chunks) None)) \<and>
   parseSse demo_builtins (chunked demo_chunks) None =
     parseSse demo_builtins (chunked [concat demo_chunks]) None \<and>
   (\<exists>pre seg post d. decoded (concat demo_chunks) = pre @ seg @ [NL, NL] @ post \<and>
      dataLine seg = Some d \<and> d \<noteq> [] \<and>
      JSON_parse demo_builtins d = Some (assistant_item ''Hi!''))"
proof -
  have member: "assistant_item ''Hi!'' \<in> set (fst (parseSse demo_builtins (chunked demo_chunks) None))"
    by code_simp
  from parseSse_chunk_invariant[of demo_builtins demo_chunks None] member
  show ?thesis by blast
qed

section \<open>The loop over the decoded events\<close>

lemma Number_of_total: "\<not> unconvertible v \<Longrightarrow> \<exists>n. Number_of B v = Inr n"
  by (cases v) (simp_all add: Number_of_def)

lemma Number_of_throws: "Number_of B v = Inl e \<Longrightarrow> unconvertible v \<and> e = TypeError"
  by (cases v) (simp_all add: Number_of_def split: if_splits)

lemma String_of_total: "\<not> unconvertible v \<Longrightarrow> \<exists>m. String_of B v = Inr m"
  by (cases v) (simp_all add: String_of_def)

lemma parseUsage_total:
  assumes "\<not> list_ex unconvertible (usage_values u)"
  shows "\<exists>usg. parseUsage B u = Inr usg"
proof -
  from assms have
    a: "\<not> unconvertible (orElse (optProp u ''input_tokens'') (JNumber (Num 0)))" and
    b: "\<not> unconvertible (orElse (optProp (optProp u ''input_tokens_details'') ''cached_tokens'')
          (JNumber (Num 0)))" and
    c: "\<not> unconvertible (orElse (optProp u ''output_tokens'') (JNumber (Num 0)))"
    by (simp_all add: usage_values_def)
  from Number_of_total[OF a, of B] Number_of_total[OF b, of B] Number_of_total[OF c, of B]
  show ?thesis
    by (auto simp: parseUsage_def)
qed

lemma reached_completed_append:
  "reached_completed (xs @ ys) = (reached_completed xs \<or> reached_completed ys)"
  by (induction xs) auto

lemma assistant_texts_append:
  "assistant_texts (xs @ ys) = assistant_texts xs @ assistant_texts ys"
  by (induction xs rule: assistant_texts.induct) auto

lemma handleEvent_Inr:
  assumes "handleEvent B sig st ev = (ys, Inr st')"
  shows "updatedHistory st' = updatedHistory st @ map assistantMessage (assistant_texts ys)"
    and "completed st' = (completed st \<or> reached_completed ys)"
  using assms
  by (auto simp: handleEvent_def Let_def assistantMessage_def
      split: if_splits option.splits sum.splits)

lemma consume_Inr:
  "consume B sig st evs = (ys, Inr st') \<Longrightarrow>
   updatedHistory st' = updatedHistory st @ map assistantMessage (assistant_texts ys) \<and>
   completed st' = (completed st \<or> reached_completed ys)"
proof (induction evs arbitrary: st ys)
  case Nil
  then show ?case by simp
next
  case (Cons ev evs)
  obtain a r where h: "handleEvent B sig st ev = (a, r)" by (cases "handleEvent B sig st ev")
  show ?case
  proof (cases r)
    case (Inl e)
    with h Cons.prems show ?thesis by simp
  next
    case (Inr st1)
    obtain b r2 where c: "consume B sig st1 evs = (b, r2)" by (cases "consume B sig st1 evs")
    with h Inr Cons.prems have ys: "ys = a @ b" and r2: "r2 = Inr st'" by auto
    from Cons.IH[OF c[unfolded r2]] handleEvent_Inr[OF h[unfolded Inr]] ys
    show ?thesis
      by (simp add: assistant_texts_append reached_completed_append)
  qed
qed

lemma handleEvent_total:
  assumes "\<not> raises sig ev"
  shows "\<exists>ys st'. handleEvent B sig st ev = (ys, Inr st')"
proof (cases "event_type ev = Some (JString ''response.completed'')")
  case True
  with assms have "\<not> list_ex unconvertible (usage_values (optProp (getProp ev ''response'') ''usage''))"
    and "ev \<noteq> JNull"
    by (auto simp: raises_def split: if_splits)
  with True parseUsage_total[OF this(1), of B] show ?thesis
    by (auto simp: handleEvent_def event_type_def)
next
  case nc: False
  show ?thesis
  proof (cases "event_type ev = Some (JString ''error'')")
    case True
    show ?thesis
    proof (cases "optProp (getProp ev ''error'') ''message''")
      case None
      with True assms show ?thesis
        by (auto simp: handleEvent_def raises_def event_type_def Let_def nullish_def
            split: if_splits)
    next
      case (Some v)
      with True assms have "\<not> unconvertible v" and "ev \<noteq> JNull"
        by (auto simp: raises_def split: if_splits)
      with True Some String_of_total[OF this(1), of B] show ?thesis
        by (auto simp: handleEvent_def event_type_def Let_def)
    qed
  next
    case False
    with nc assms show ?thesis
      by (auto simp: handleEvent_def raises_def event_type_def Let_def
          split: if_splits option.splits)
  qed
qed

lemma handleEvent_flags:
  "handleEvent B sig st ev = (ys, Inr st') \<Longrightarrow> \<not> is_final ev \<Longrightarrow>
   completed st' = completed st \<and> failed st' = failed st"
  by (auto simp: handleEvent_def is_final_def event_type_def Let_def
      split: if_splits option.splits sum.splits)

lemma handleEvent_error:
  assumes "event_type ev = Some (JString ''error'')" and "\<not> raises sig ev"
  shows "\<exists>m. handleEvent B sig st ev =
           ([Stringified (TurnFailed (''stream disconnected before completion: '' @ m))],
            Inr (st\<lparr>failed := True\<rparr>)) \<and>
         (nullish (optProp (getProp ev ''error'') ''message'') \<longrightarrow>
            m = ''stream disconnected before completion'') \<and>
         (\<forall>s. optProp (getProp ev ''error'') ''message'' = Some (JString s) \<longrightarrow> m = s)"
proof (cases "nullish (optProp (getProp ev ''error'') ''message'')")
  case True
  with assms show ?thesis
    by (auto simp: handleEvent_def event_type_def Let_def nullish_def)
next
  case False
  then obtain v where v: "optProp (getProp ev ''error'') ''message'' = Some v" "v \<noteq> JNull"
    by (auto simp: nullish_def)
  with assms have "\<not> unconvertible v"
    by (auto simp: raises_def event_type_def split: if_splits)
  then obtain m where m: "String_of B v = Inr m" "\<forall>s. v = JString s \<longrightarrow> m = s"
    by (cases v) (auto simp: String_of_def)
  with assms v False show ?thesis
    by (auto simp: handleEvent_def event_type_def Let_def)
qed

lemma consume_total:
  "\<not> any_raises sig evs \<Longrightarrow> \<exists>ys st'. consume B sig st evs = (ys, Inr st')"
proof (induction evs arbitrary: st)
  case Nil
  then show ?case by simp
next
  case (Cons ev evs)
  from Cons.prems have "\<not> raises sig ev" and rest: "\<not> any_raises sig evs" by simp_all
  from handleEvent_total[OF this(1)] obtain a st1 where h: "handleEvent B sig st ev = (a, Inr st1)"
    by blast
  from Cons.IH[OF rest] obtain b st2 where "consume B sig st1 evs = (b, Inr st2)" by blast
  with h show ?case by simp
qed

lemma consume_flags:
  "consume B sig st evs = (ys, Inr st') \<Longrightarrow> \<not> any_final evs \<Longrightarrow>
   completed st' = completed st \<and> failed st' = failed st"
proof (induction evs arbitrary: st ys)
  case Nil
  then show ?case by simp
next
  case (Cons ev evs)
  obtain a r where h: "handleEvent B sig st ev = (a, r)" by (cases "handleEvent B sig st ev")
  show ?case
  proof (cases r)
    case (Inl e)
    with h Cons.prems show ?thesis by simp
  next
    case (Inr st1)
    obtain b r2 where c: "consume B sig st1 evs = (b, r2)" by (cases "consume B sig st1 evs")
    with h Inr Cons.prems have r2: "r2 = Inr st'" by auto
    from Cons.prems(2) have nf: "\<not> is_final ev" "\<not> any_final evs" by simp_all
    from Cons.IH[OF c[unfolded r2] nf(2)] handleEvent_flags[OF h[unfolded Inr] nf(1)]
    show ?thesis by simp
  qed
qed

lemma consume_append:
  "consume B sig st (xs @ zs) =
     (case consume B sig st xs of
        (a, Inl e) \<Rightarrow> (a, Inl e)
      | (a, Inr st1) \<Rightarrow> (case consume B sig st1 zs of (b, r) \<Rightarrow> (a @ b, r)))"
proof (induction xs arbitrary: st)
  case Nil
  show ?case by simp
next
  case (Cons x xs)
  show ?case
    by (simp add: Cons.IH split: prod.splits sum.splits)
qed

lemma any_raises_append: "any_raises sig (xs @ ys) = (any_raises sig xs \<or> any_raises sig ys)"
  by (induction xs) auto

lemma handleEvent_failed:
  "handleEvent B sig st ev = (ys, Inr st') \<Longrightarrow> failed st \<Longrightarrow> failed st'"
  by (auto simp: handleEvent_def Let_def split: if_splits option.splits sum.splits)

lemma consume_failed:
  "consume B sig st evs = (ys, Inr st') \<Longrightarrow> failed st \<Longrightarrow> failed st'"
proof (induction evs arbitrary: st ys)
  case Nil
  then show ?case by simp
next
  case (Cons ev evs)
  obtain a r where h: "handleEvent B sig st ev = (a, r)" by (cases "handleEvent B sig st ev")
  show ?case
  proof (cases r)
    case (Inl e)
    with h Cons.prems show ?thesis by simp
  next
    case (Inr st1)
    obtain b r2 where c: "consume B sig st1 evs = (b, r2)" by (cases "consume B sig st1 evs")
    with h Inr Cons.prems have r2: "r2 = Inr st'" by auto
    from handleEvent_failed[OF h[unfolded Inr] Cons.prems(2)] Cons.IH[OF c[unfolded r2]]
    show ?thesis by simp
  qed
qed

lemma consume_error_at:
  assumes "\<not> any_raises sig (pre @ ev # post)" and "event_type ev = Some (JString ''error'')"
  shows "\<exists>m zs st'. consume B sig st (pre @ ev # post) =
           (fst (consume B sig st pre) @
            Stringified (TurnFailed (''stream disconnected before completion: '' @ m)) # zs,
            Inr st') \<and>
         failed st' \<and> (post = [] \<longrightarrow> zs = []) \<and>
         (nullish (optProp (getProp ev ''error'') ''message'') \<longrightarrow>
            m = ''stream disconnected before completion'') \<and>
         (\<forall>s. optProp (getProp ev ''error'') ''message'' = Some (JString s) \<longrightarrow> m = s)"
proof -
  from assms(1) have np: "\<not> any_raises sig pre" and ne: "\<not> raises sig ev"
    and nq: "\<not> any_raises sig post"
    by (simp_all add: any_raises_append)
  from consume_total[OF np] obtain a st1 where a: "consume B sig st pre = (a, Inr st1)" by blast
  from handleEvent_error[OF assms(2) ne, of B st1] obtain m where
    h: "handleEvent B sig st1 ev =
          ([Stringified (TurnFailed (''stream disconnected before completion: '' @ m))],
           Inr (st1\<lparr>failed := True\<rparr>))"
    and m: "nullish (optProp (getProp ev ''error'') ''message'') \<longrightarrow>
              m = ''stream disconnected before completion''"
       "\<forall>s. optProp (getProp ev ''error'') ''message'' = Some (JString s) \<longrightarrow> m = s"
    by blast
  from consume_total[OF nq] obtain zs st2 where
    z: "consume B sig (st1\<lparr>failed := True\<rparr>) post = (zs, Inr st2)" by blast
  from consume_failed[OF z] have f: "failed st2" by simp
  have "consume B sig st (pre @ ev # post) =
          (a @ Stringified (TurnFailed (''stream disconnected before completion: '' @ m)) # zs,
           Inr st2)"
    using a h z by (simp add: consume_append)
  moreover have "post = [] \<longrightarrow> zs = []"
    using z by auto
  ultimately show ?thesis
    using a f m by auto
qed

section \<open>The history store\<close>

lemma respond_store:
  "this (respond self B args tid history req response) =
     (if outcome (respond self B args tid history req response) = Returned \<and>
         reached_completed (yielded (respond self B args tid history req response))
      then self\<lparr>histories := (histories self)(tid \<mapsto>
             history @ userMessage (input args) #
             map assistantMessage (assistant_texts (yielded (respond self B args tid history req response))))\<rparr>
      else self)"
proof (cases "ok response")
  case False
  then show ?thesis
    by (simp add: respond_def failedTurn_def reached_completed_append)
next
  case True
  note ok = True
  show ?thesis
  proof (cases "body response")
    case None
    with ok show ?thesis
      by (simp add: respond_def failedTurn_def reached_completed_append)
  next
    case (Some stream)
    obtain events ended where p: "parseSse B stream (signal args) = (events, ended)"
      by (cases "parseSse B stream (signal args)")
    let ?init = "\<lparr>updatedHistory = history @ [\<lparr>role = User, text' = JString (input args)\<rparr>],
                  assistantCount = 0, completed = False, failed = False\<rparr>"
    obtain ys r where c: "consume B (signal args) ?init events = (ys, r)"
      by (cases "consume B (signal args) ?init events")
    show ?thesis
    proof (cases r)
      case (Inl e)
      with ok Some p c show ?thesis
        by (simp add: respond_def thrown_def)
    next
      case (Inr st)
      from consume_Inr[OF c[unfolded Inr]]
      have h: "updatedHistory st =
                 history @ userMessage (input args) # map assistantMessage (assistant_texts ys)"
        and d: "completed st = reached_completed ys"
        by (simp_all add: userMessage_def)
      show ?thesis
      proof (cases ended)
        case (Some e)
        with ok \<open>body response = Some stream\<close> p c Inr show ?thesis
          by (simp add: respond_def thrown_def)
      next
        case None
        with ok \<open>body response = Some stream\<close> p c Inr h d show ?thesis
          by (simp add: respond_def reached_completed_append assistant_texts_append)
      qed
    qed
  qed
qed

lemma runHttp_store:
  "this (runHttp self B W args) =
     (if outcome (runHttp self B W args) = Returned \<and>
         reached_completed (yielded (runHttp self B W args))
      then self\<lparr>histories := (histories self)(resolveThreadId W args \<mapsto>
             committed self W args (yielded (runHttp self B W args)))\<rparr>
      else self)"
proof (cases "preflight self B W args")
  case (Inl e)
  then show ?thesis by (simp add: runHttp_def thrown_def)
next
  case (Inr req)
  show ?thesis
  proof (cases "fetch W req")
    case (FetchRejected e)
    with Inr show ?thesis by (simp add: runHttp_def thrown_def)
  next
    case (Response response)
    with Inr have "runHttp self B W args =
        respond self B args (resolveThreadId W args) (getHistory self (resolveThreadId W args)) req response"
      by (simp add: runHttp_def Let_def)
    then show ?thesis
      using respond_store[of self B args "resolveThreadId W args"
          "getHistory self (resolveThreadId W args)" req response]
      by (simp add: committed_def)
  qed
qed

lemma runProcess_this: "this (runProcess self W args) = self"
  by (simp add: runProcess_def Let_def split: option.splits)

text \<open>
  C1. A turn that does not reach \<^verbatim>\<open>turn.completed\<close> leaves the stored histories of all
  threads as they were before the call, on the HTTP transport and through the entry
  point: whether the turn fails, is cancelled, or its stream ends with no completion. So
  the stored history is replaced only when the turn reached \<^verbatim>\<open>turn.completed\<close>.
\<close>

theorem history_kept_unless_completed:
  "(\<not> reached_completed (yielded (runHttp self B W args)) \<longrightarrow>
      histories (this (runHttp self B W args)) = histories self) \<and>
   (\<not> reached_completed (yielded (run self B W args)) \<longrightarrow>
      histories (this (run self B W args)) = histories self)"
proof -
  have a: "\<not> reached_completed (yielded (runHttp self B W args)) \<longrightarrow>
      histories (this (runHttp self B W args)) = histories self"
    using runHttp_store[of self B W args] by auto
  have b: "\<not> reached_completed (yielded (run self B W args)) \<longrightarrow>
      histories (this (run self B W args)) = histories self"
    using a by (simp add: run_def thrown_def runProcess_this)
  from a b show ?thesis by blast
qed

theorem history_kept_unless_completed_witness:
  "\<not> reached_completed (yielded (runHttp demo_exec demo_builtins incomplete_world demo_args)) \<and>
   histories (this (runHttp demo_exec demo_builtins incomplete_world demo_args)) =
     histories demo_exec \<and>
   \<not> reached_completed (yielded (run demo_exec demo_builtins incomplete_world demo_args)) \<and>
   histories (this (run demo_exec demo_builtins incomplete_world demo_args)) =
     histories demo_exec"
proof -
  have a: "\<not> reached_completed (yielded (runHttp demo_exec demo_builtins incomplete_world demo_args))"
    by code_simp
  have b: "\<not> reached_completed (yielded (run demo_exec demo_builtins incomplete_world demo_args))"
    by code_simp
  from history_kept_unless_completed[of demo_exec demo_builtins incomplete_world demo_args] a b
  show ?thesis by blast
qed

text \<open>
  C2, as stated, fails on the code. A completed turn over HTTP in which the endpoint sends
  two assistant messages stores the user message and two assistant messages, not one; and
  a turn of the process transport that ends with exit code 0 stores nothing.
\<close>

theorem two_items_counterexample:
  "outcome (runHttp demo_exec demo_builtins two_items_world demo_args) = Returned \<and>
   histories (this (runHttp demo_exec demo_builtins two_items_world demo_args)) ''thread_1'' =
     Some [userMessage ''Hello, world!'', assistantMessage (JString ''Hi!''),
           assistantMessage (JString ''Bye!'')] \<and>
   outcome (run demo_exec demo_builtins succeeding_world process_args) = Returned \<and>
   histories (this (run demo_exec demo_builtins succeeding_world process_args)) ''thread_1'' = None"
  by code_simp

text \<open>
  C2, amended. A turn over HTTP that returns after reaching \<^verbatim>\<open>turn.completed\<close> replaces the
  stored history of its thread by what was there before the call, then the new user
  message, then one assistant message for every completed item, in order. After any turn
  over HTTP the stored histories are either unchanged or changed in exactly that way:
  there is no partial append. A turn of the process transport never changes them.
\<close>

theorem completed_turn_commits:
  "(outcome (runHttp self B W args) = Returned \<and>
    reached_completed (yielded (runHttp self B W args)) \<longrightarrow>
      histories (this (runHttp self B W args)) =
        (histories self)(resolveThreadId W args \<mapsto>
           committed self W args (yielded (runHttp self B W args)))) \<and>
   (histories (this (runHttp self B W args)) = histories self \<or>
    histories (this (runHttp self B W args)) =
        (histories self)(resolveThreadId W args \<mapsto>
           committed self W args (yielded (runHttp self B W args)))) \<and>
   histories (this (runProcess self W args)) = histories self"
  using runHttp_store[of self B W args] runProcess_this[of self W args]
  by auto

theorem completed_turn_commits_witness:
  "outcome (runHttp demo_exec demo_builtins two_items_world demo_args) = Returned \<and>
   reached_completed (yielded (runHttp demo_exec demo_builtins two_items_world demo_args)) \<and>
   histories (this (runHttp demo_exec demo_builtins two_items_world demo_args)) =
     (histories demo_exec)(resolveThreadId two_items_world demo_args \<mapsto>
        committed demo_exec two_items_world demo_args
          (yielded (runHttp demo_exec demo_builtins two_items_world demo_args))) \<and>
   committed demo_exec two_items_world demo_args
     (yielded (runHttp demo_exec demo_builtins two_items_world demo_args)) =
     [userMessage ''Hello, world!'', assistantMessage (JString ''Hi!''),
      assistantMessage (JString ''Bye!'')]"
proof -
  have a: "outcome (runHttp demo_exec demo_builtins two_items_world demo_args) = Returned"
    by code_simp
  have b: "reached_completed (yielded (runHttp demo_exec demo_builtins two_items_world demo_args))"
    by code_simp
  have c: "committed demo_exec two_items_world demo_args
     (yielded (runHttp demo_exec demo_builtins two_items_world demo_args)) =
     [userMessage ''Hello, world!'', assistantMessage (JString ''Hi!''),
      assistantMessage (JString ''Bye!'')]"
    by code_simp
  from completed_turn_commits[of demo_exec demo_builtins two_items_world demo_args] a b c
  show ?thesis by blast
qed

section \<open>Failures of the HTTP transport\<close>

lemma runHttp_respond:
  "preflight self B W args = Inr req \<Longrightarrow> fetch W req = Response response \<Longrightarrow>
   runHttp self B W args =
     respond self B args (resolveThreadId W args) (getHistory self (resolveThreadId W args))
       req response"
  by (simp add: runHttp_def Let_def)

lemma respond_stream:
  assumes "ok response" and "body response = Some stream"
    and "parseSse B stream (signal args) = (events, None)"
    and "consume B (signal args) (first_state history (input args)) events = (ys, Inr st)"
  shows "respond self B args tid history req response =
     \<lparr>yielded = [Stringified (ThreadStarted tid), Stringified TurnStarted] @ ys @
        (if \<not> completed st \<and> \<not> failed st then
           [Stringified (TurnFailed
              ''stream disconnected before completion: missing completion event'')]
         else []),
      outcome = Returned,
      this = (if completed st then
                self\<lparr>histories := (histories self)(tid \<mapsto> updatedHistory st)\<rparr>
              else self),
      requests = [req], spawns = []\<rparr>"
  using assms by (simp add: respond_def first_state_def)

text \<open>
  C4, as stated, fails on the code. After an upstream error event the loop goes on reading
  the stream: when a completion follows the error event, \<^verbatim>\<open>turn.failed\<close> is not the last
  event, \<^verbatim>\<open>turn.completed\<close> follows it, and the history is committed.
\<close>

theorem error_then_completed_counterexample:
  "yielded (runHttp demo_exec demo_builtins error_then_completed_world demo_args) =
     [Stringified (ThreadStarted ''thread_1''), Stringified TurnStarted,
      Stringified (TurnFailed ''stream disconnected before completion: rate limit exceeded''),
      Stringified (TurnCompleted
        \<lparr>input_tokens = Num 42, cached_input_tokens = Num 12, output_tokens = Num 5\<rparr>)] \<and>
   outcome (runHttp demo_exec demo_builtins error_then_completed_world demo_args) = Returned \<and>
   histories (this (runHttp demo_exec demo_builtins error_then_completed_world demo_args))
     ''thread_1'' = Some [userMessage ''Hello, world!'']"
  by code_simp

text \<open>
  C4, amended. When the request has obtained a response: a status that is not a success,
  and a missing body, each give exactly \<^verbatim>\<open>thread.started\<close>, \<^verbatim>\<open>turn.started\<close> and one
  \<^verbatim>\<open>turn.failed\<close>, and the stream returns. When the body decodes to the end and no event
  makes the loop throw, the stream returns; if no completion and no error event was
  decoded, its last event is the \<^verbatim>\<open>turn.failed\<close> of the missing completion; and every
  upstream error event is surfaced at its place, after what the events before it yield,
  as a \<^verbatim>\<open>turn.failed\<close> with the upstream message (the default text when there is none),
  which is the last event when the error event is the last one decoded.
\<close>

theorem http_failures_are_events:
  assumes "preflight self B W args = Inr req" and "fetch W req = Response response"
  shows
   "(\<not> ok response \<longrightarrow>
       outcome (runHttp self B W args) = Returned \<and>
       yielded (runHttp self B W args) =
         [Stringified (ThreadStarted (resolveThreadId W args)), Stringified TurnStarted,
          Stringified (TurnFailed (''request failed with status '' @ show_int (status response) @
             '': '' @ (case response_text response of
                         None \<Rightarrow> ''unexpected error while reading response body''
                       | Some m \<Rightarrow> m)))]) \<and>
    (ok response \<and> body response = None \<longrightarrow>
       outcome (runHttp self B W args) = Returned \<and>
       yielded (runHttp self B W args) =
         [Stringified (ThreadStarted (resolveThreadId W args)), Stringified TurnStarted,
          Stringified (TurnFailed
             ''stream disconnected before completion: missing response body'')]) \<and>
    (ok response \<and> body response = Some stream \<and>
     parseSse B stream (signal args) = (events, None) \<and> \<not> any_raises (signal args) events \<longrightarrow>
       outcome (runHttp self B W args) = Returned \<and>
       (\<not> any_final events \<longrightarrow>
          last (yielded (runHttp self B W args)) =
            Stringified (TurnFailed
              ''stream disconnected before completion: missing completion event'')) \<and>
       (events = pre @ ev # post \<and> event_type ev = Some (JString ''error'') \<longrightarrow>
          (\<exists>m after.
             yielded (runHttp self B W args) =
               Stringified (ThreadStarted (resolveThreadId W args)) # Stringified TurnStarted #
               fst (consume B (signal args)
                     (first_state (getHistory self (resolveThreadId W args)) (input args)) pre) @
               Stringified (TurnFailed (''stream disconnected before completion: '' @ m)) #
               after \<and>
             (post = [] \<longrightarrow> after = []) \<and>
             (nullish (optProp (getProp ev ''error'') ''message'') \<longrightarrow>
                m = ''stream disconnected before completion'') \<and>
             (optProp (getProp ev ''error'') ''message'' = Some (JString s) \<longrightarrow> m = s))))"
    (is "?A \<and> ?B \<and> ?C")
proof -
  let ?tid = "resolveThreadId W args"
  let ?history = "getHistory self ?tid"
  let ?init = "first_state ?history (input args)"
  note eq = runHttp_respond[OF assms]
  have a: ?A
    by (simp add: eq respond_def failedTurn_def)
  have b: ?B
    by (simp add: eq respond_def failedTurn_def)
  have c: ?C
  proof (intro impI)
    assume "ok response \<and> body response = Some stream \<and>
      parseSse B stream (signal args) = (events, None) \<and> \<not> any_raises (signal args) events"
    then have okr: "ok response" and st: "body response = Some stream"
      and p: "parseSse B stream (signal args) = (events, None)"
      and nr: "\<not> any_raises (signal args) events" by simp_all
    from consume_total[OF nr] obtain ys st where
      c: "consume B (signal args) ?init events = (ys, Inr st)" by blast
    note r = respond_stream[OF okr st p c, of self ?tid req]
    have ret: "outcome (runHttp self B W args) = Returned"
      by (simp add: eq r)
    have d: "last (yielded (runHttp self B W args)) =
            Stringified (TurnFailed
              ''stream disconnected before completion: missing completion event'')"
      if "\<not> any_final events"
      using consume_flags[OF c that] by (simp add: eq r first_state_def)
    have e: "\<exists>m after.
             yielded (runHttp self B W args) =
               Stringified (ThreadStarted ?tid) # Stringified TurnStarted #
               fst (consume B (signal args) ?init pre) @
               Stringified (TurnFailed (''stream disconnected before completion: '' @ m)) #
               after \<and>
             (post = [] \<longrightarrow> after = []) \<and>
             (nullish (optProp (getProp ev ''error'') ''message'') \<longrightarrow>
                m = ''stream disconnected before completion'') \<and>
             (optProp (getProp ev ''error'') ''message'' = Some (JString s) \<longrightarrow> m = s)"
      if ev: "events = pre @ ev # post" "event_type ev = Some (JString ''error'')"
    proof -
      from nr ev(1) have "\<not> any_raises (signal args) (pre @ ev # post)" by simp
      from consume_error_at[OF this ev(2), of B ?init] c ev(1)
      obtain m zs where
        ys: "ys = fst (consume B (signal args) ?init pre) @
               Stringified (TurnFailed (''stream disconnected before completion: '' @ m)) # zs"
        and f: "failed st" and z: "post = [] \<longrightarrow> zs = []"
        and m: "nullish (optProp (getProp ev ''error'') ''message'') \<longrightarrow>
                  m = ''stream disconnected before completion''"
               "optProp (getProp ev ''error'') ''message'' = Some (JString s) \<longrightarrow> m = s"
        by auto
      have "yielded (runHttp self B W args) =
               Stringified (ThreadStarted ?tid) # Stringified TurnStarted #
               fst (consume B (signal args) ?init pre) @
               Stringified (TurnFailed (''stream disconnected before completion: '' @ m)) # zs"
        using f by (simp add: eq r ys)
      with z m show ?thesis by blast
    qed
    from ret d e show "outcome (runHttp self B W args) = Returned \<and>
       (\<not> any_final events \<longrightarrow>
          last (yielded (runHttp self B W args)) =
            Stringified (TurnFailed
              ''stream disconnected before completion: missing completion event'')) \<and>
       (events = pre @ ev # post \<and> event_type ev = Some (JString ''error'') \<longrightarrow>
          (\<exists>m after.
             yielded (runHttp self B W args) =
               Stringified (ThreadStarted ?tid) # Stringified TurnStarted #
               fst (consume B (signal args) ?init pre) @
               Stringified (TurnFailed (''stream disconnected before completion: '' @ m)) #
               after \<and>
             (post = [] \<longrightarrow> after = []) \<and>
             (nullish (optProp (getProp ev ''error'') ''message'') \<longrightarrow>
                m = ''stream disconnected before completion'') \<and>
             (optProp (getProp ev ''error'') ''message'' = Some (JString s) \<longrightarrow> m = s)))"
      by blast
  qed
  from a b c show ?thesis by blast
qed

theorem http_failures_are_events_witness:
  "outcome (runHttp demo_exec demo_builtins failing_world demo_args) = Returned \<and>
   yielded (runHttp demo_exec demo_builtins failing_world demo_args) =
     [Stringified (ThreadStarted ''thread_1''), Stringified TurnStarted,
      Stringified (TurnFailed ''request failed with status 500: boom'')] \<and>
   outcome (runHttp demo_exec demo_builtins bodiless_world demo_args) = Returned \<and>
   yielded (runHttp demo_exec demo_builtins bodiless_world demo_args) =
     [Stringified (ThreadStarted ''thread_1''), Stringified TurnStarted,
      Stringified (TurnFailed ''stream disconnected before completion: missing response body'')] \<and>
   outcome (runHttp demo_exec demo_builtins incomplete_world demo_args) = Returned \<and>
   last (yielded (runHttp demo_exec demo_builtins incomplete_world demo_args)) =
     Stringified (TurnFailed ''stream disconnected before completion: missing completion event'') \<and>
   outcome (runHttp demo_exec demo_builtins error_world demo_args) = Returned \<and>
   yielded (runHttp demo_exec demo_builtins error_world demo_args) =
     [Stringified (ThreadStarted ''thread_1''), Stringified TurnStarted,
      Stringified (TurnFailed ''stream disconnected before completion: rate limit exceeded'')] \<and>
   outcome (runHttp demo_exec demo_builtins error_then_completed_world demo_args) = Returned \<and>
   (\<exists>after. yielded (runHttp demo_exec demo_builtins error_then_completed_world demo_args) =
      Stringified (ThreadStarted ''thread_1'') # Stringified TurnStarted #
      Stringified (TurnFailed ''stream disconnected before completion: rate limit exceeded'') #
      after)"
proof -
  have tid: "resolveThreadId W demo_args = ''thread_1''" for W
    by (simp add: resolveThreadId_def demo_args_def)
  have msg: "''request failed with status '' @ show_int (status failing_response) @ '': '' @
      (case response_text failing_response of
         None \<Rightarrow> ''unexpected error while reading response body'' | Some m \<Rightarrow> m) =
      ''request failed with status 500: boom''"
    by code_simp
  have pa: "preflight demo_exec demo_builtins failing_world demo_args = Inr demo_request"
    by code_simp
  have fa: "fetch failing_world demo_request = Response failing_response"
    by code_simp
  have oa: "\<not> ok failing_response"
    by code_simp
  have a: "outcome (runHttp demo_exec demo_builtins failing_world demo_args) = Returned \<and>
   yielded (runHttp demo_exec demo_builtins failing_world demo_args) =
     [Stringified (ThreadStarted ''thread_1''), Stringified TurnStarted,
      Stringified (TurnFailed ''request failed with status 500: boom'')]"
    using http_failures_are_events[OF pa fa] msg oa by (simp add: tid)
  have pb: "preflight demo_exec demo_builtins bodiless_world demo_args = Inr demo_request"
    by code_simp
  have fb: "fetch bodiless_world demo_request = Response bodiless_response"
    by code_simp
  have ob: "ok bodiless_response \<and> body bodiless_response = None"
    by code_simp
  have b: "outcome (runHttp demo_exec demo_builtins bodiless_world demo_args) = Returned \<and>
   yielded (runHttp demo_exec demo_builtins bodiless_world demo_args) =
     [Stringified (ThreadStarted ''thread_1''), Stringified TurnStarted,
      Stringified (TurnFailed ''stream disconnected before completion: missing response body'')]"
    using http_failures_are_events[OF pb fb] ob by (simp add: tid)
  let ?created = "JObject [(''type'', JString ''response.created'')]"
  let ?inc = "\<lparr>ok = True, status = 200, response_text = None,
               body = Some (chunked [sse [created_text, hi_text]])\<rparr>"
  let ?ievs = "[?created, assistant_item ''Hi!'']"
  have pc: "preflight demo_exec demo_builtins incomplete_world demo_args = Inr demo_request"
    by code_simp
  have fc: "fetch incomplete_world demo_request = Response ?inc"
    by code_simp
  have hc: "ok ?inc \<and> body ?inc = Some (chunked [sse [created_text, hi_text]]) \<and>
      parseSse demo_builtins (chunked [sse [created_text, hi_text]]) (signal demo_args) =
        (?ievs, None) \<and>
      \<not> any_raises (signal demo_args) ?ievs"
    by code_simp
  have nf: "\<not> any_final ?ievs"
    by code_simp
  have c: "outcome (runHttp demo_exec demo_builtins incomplete_world demo_args) = Returned \<and>
   last (yielded (runHttp demo_exec demo_builtins incomplete_world demo_args)) =
     Stringified (TurnFailed ''stream disconnected before completion: missing completion event'')"
    using http_failures_are_events[OF pc fc,
        where stream = "chunked [sse [created_text, hi_text]]" and events = ?ievs] hc nf
    by blast
  let ?ev = "error_event ''rate limit exceeded''"
  have ty: "event_type ?ev = Some (JString ''error'') \<and>
      optProp (getProp ?ev ''error'') ''message'' = Some (JString ''rate limit exceeded'')"
    by code_simp
  let ?err = "\<lparr>ok = True, status = 200, response_text = None,
               body = Some (chunked [sse [created_text, error_text]])\<rparr>"
  have pd: "preflight demo_exec demo_builtins error_world demo_args = Inr demo_request"
    by code_simp
  have fd: "fetch error_world demo_request = Response ?err"
    by code_simp
  have hd: "ok ?err \<and> body ?err = Some (chunked [sse [created_text, error_text]]) \<and>
      parseSse demo_builtins (chunked [sse [created_text, error_text]]) (signal demo_args) =
        ([?created] @ ?ev # [], None) \<and>
      \<not> any_raises (signal demo_args) ([?created] @ ?ev # [])"
    by code_simp
  have before: "fst (consume demo_builtins (signal demo_args)
      (first_state (getHistory demo_exec (resolveThreadId error_world demo_args))
         (input demo_args)) [?created]) = []"
    by code_simp
  from http_failures_are_events[OF pd fd,
        where stream = "chunked [sse [created_text, error_text]]"
          and events = "[?created] @ ?ev # []" and pre = "[?created]" and ev = ?ev
          and post = "[]" and s = "''rate limit exceeded''"] hd ty
  obtain m after where
    "outcome (runHttp demo_exec demo_builtins error_world demo_args) = Returned"
    "yielded (runHttp demo_exec demo_builtins error_world demo_args) =
       Stringified (ThreadStarted (resolveThreadId error_world demo_args)) #
       Stringified TurnStarted #
       fst (consume demo_builtins (signal demo_args)
              (first_state (getHistory demo_exec (resolveThreadId error_world demo_args))
                 (input demo_args)) [?created]) @
       Stringified (TurnFailed (''stream disconnected before completion: '' @ m)) # after"
    "after = []" "m = ''rate limit exceeded''"
    by blast
  with before have d: "outcome (runHttp demo_exec demo_builtins error_world demo_args) = Returned \<and>
   yielded (runHttp demo_exec demo_builtins error_world demo_args) =
     [Stringified (ThreadStarted ''thread_1''), Stringified TurnStarted,
      Stringified (TurnFailed ''stream disconnected before completion: rate limit exceeded'')]"
    by (simp add: tid)
  let ?etc = "\<lparr>ok = True, status = 200, response_text = None,
               body = Some (chunked [sse [error_text, completed_text]])\<rparr>"
  have pe: "preflight demo_exec demo_builtins error_then_completed_world demo_args =
      Inr demo_request"
    by code_simp
  have fe: "fetch error_then_completed_world demo_request = Response ?etc"
    by code_simp
  have he: "ok ?etc \<and> body ?etc = Some (chunked [sse [error_text, completed_text]]) \<and>
      parseSse demo_builtins (chunked [sse [error_text, completed_text]]) (signal demo_args) =
        ([] @ ?ev # [completed_event demo_usage], None) \<and>
      \<not> any_raises (signal demo_args) ([] @ ?ev # [completed_event demo_usage])"
    by code_simp
  from http_failures_are_events[OF pe fe,
        where stream = "chunked [sse [error_text, completed_text]]"
          and events = "[] @ ?ev # [completed_event demo_usage]" and pre = "[]" and ev = ?ev
          and post = "[completed_event demo_usage]" and s = "''rate limit exceeded''"] he ty
  obtain m after where
    "outcome (runHttp demo_exec demo_builtins error_then_completed_world demo_args) = Returned"
    "yielded (runHttp demo_exec demo_builtins error_then_completed_world demo_args) =
       Stringified (ThreadStarted (resolveThreadId error_then_completed_world demo_args)) #
       Stringified TurnStarted #
       fst (consume demo_builtins (signal demo_args)
              (first_state (getHistory demo_exec
                 (resolveThreadId error_then_completed_world demo_args))
                 (input demo_args)) []) @
       Stringified (TurnFailed (''stream disconnected before completion: '' @ m)) # after"
    "m = ''rate limit exceeded''"
    by blast
  then have e: "outcome (runHttp demo_exec demo_builtins error_then_completed_world demo_args) =
      Returned \<and>
   (\<exists>after. yielded (runHttp demo_exec demo_builtins error_then_completed_world demo_args) =
      Stringified (ThreadStarted ''thread_1'') # Stringified TurnStarted #
      Stringified (TurnFailed ''stream disconnected before completion: rate limit exceeded'') #
      after)"
    by (simp add: tid)
  from a b c d e show ?thesis by blast
qed

section \<open>Exit of the subprocess\<close>

lemma exit_seen_by_listener:
  assumes "\<not> untrusted W args" and "\<not> truthy (baseUrl args)"
    and "has_stdin (spawn W (spawnCall self W args))"
    and "stdin_error (spawn W (spawnCall self W args)) = None"
    and "stdout_lines (spawn W (spawnCall self W args)) = Some lines"
    and "spawn_error (spawn W (spawnCall self W args)) = None"
    and "exit_after_loop (spawn W (spawnCall self W args))"
    and "exit_code (spawn W (spawnCall self W args)) = code"
  shows "yielded (run self B W args) = map Raw lines \<and>
         (code = Some 0 \<longrightarrow> outcome (run self B W args) = Returned) \<and>
         (code \<noteq> Some 0 \<longrightarrow>
            outcome (run self B W args) =
              Threw (Error (''Codex Exec exited with code '' @ show_code code @ '': '' @
                concat (case stderr_chunks (spawn W (spawnCall self W args)) of
                          None \<Rightarrow> [] | Some cs \<Rightarrow> cs))))"
  using assms
  by (simp add: run_def runProcess_def Let_def awaitExit_def exitMessage_def)

lemma exit_missed_by_listener:
  assumes "\<not> untrusted W args" and "\<not> truthy (baseUrl args)"
    and "has_stdin (spawn W (spawnCall self W args))"
    and "stdin_error (spawn W (spawnCall self W args)) = None"
    and "stdout_lines (spawn W (spawnCall self W args)) = Some lines"
    and "spawn_error (spawn W (spawnCall self W args)) = None"
    and "\<not> exit_after_loop (spawn W (spawnCall self W args))"
  shows "yielded (run self B W args) = map Raw lines \<and>
         outcome (run self B W args) = NeverSettles"
  using assms
  by (simp add: run_def runProcess_def Let_def awaitExit_def)

text \<open>
  C5. The code does not do what the claim says when the child exits before the loop over
  its lines has ended, as the child of the spawn mock of the repository's tests does: the
  listener for the exit is registered only after that loop, so it never sees the exit.
  The call yields the lines and then neither returns, with exit code 0, nor throws the
  error of the exit code, with exit code 3.
\<close>

theorem exit_before_listener_never_settles:
  "exit_code (spawn mock_world (spawnCall demo_exec mock_world process_args)) = Some 0 \<and>
   yielded (run demo_exec demo_builtins mock_world process_args) = [] \<and>
   outcome (run demo_exec demo_builtins mock_world process_args) = NeverSettles \<and>
   exit_code (spawn early_exit_world (spawnCall demo_exec early_exit_world process_args)) =
     Some 3 \<and>
   yielded (run demo_exec demo_builtins early_exit_world process_args) =
     [Raw ''first'', Raw ''second''] \<and>
   outcome (run demo_exec demo_builtins early_exit_world process_args) = NeverSettles"
  by code_simp

section \<open>The first events of the HTTP transport\<close>

lemma respond_started:
  "take 2 (yielded (respond self B args tid history req response)) =
     [Stringified (ThreadStarted tid), Stringified TurnStarted] \<and>
   requests (respond self B args tid history req response) = [req]"
  by (simp add: respond_def failedTurn_def thrown_def Let_def
      split: option.splits prod.splits sum.splits)

text \<open>
  C6, as stated, fails on the code. The two events are yielded after \<^verbatim>\<open>fetch\<close> has been
  awaited: when the request fails, the stream throws and has yielded nothing.
\<close>

theorem fetch_rejected_counterexample:
  "yielded (runHttp demo_exec demo_builtins rejected_world demo_args) = [] \<and>
   outcome (runHttp demo_exec demo_builtins rejected_world demo_args) =
     Threw (Rejection ''ECONNREFUSED'') \<and>
   requests (runHttp demo_exec demo_builtins rejected_world demo_args) = [demo_request]"
  by code_simp

text \<open>
  C6, amended. When the request obtains a response, whatever its status, the first two
  events are \<^verbatim>\<open>thread.started\<close> with the resolved thread id and \<^verbatim>\<open>turn.started\<close>, and the
  request has been sent before them. When the request is rejected, or the call fails
  before the request, the stream throws and yields nothing.
\<close>

theorem started_events_follow_response:
  "(preflight self B W args = Inr req \<and> fetch W req = Response response \<longrightarrow>
      take 2 (yielded (runHttp self B W args)) =
        [Stringified (ThreadStarted (resolveThreadId W args)), Stringified TurnStarted] \<and>
      requests (runHttp self B W args) = [req]) \<and>
   (preflight self B W args = Inr req \<and> fetch W req = FetchRejected e \<longrightarrow>
      yielded (runHttp self B W args) = [] \<and> outcome (runHttp self B W args) = Threw e \<and>
      requests (runHttp self B W args) = [req]) \<and>
   (preflight self B W args = Inl e \<longrightarrow>
      yielded (runHttp self B W args) = [] \<and> outcome (runHttp self B W args) = Threw e \<and>
      requests (runHttp self B W args) = [])"
  using respond_started[of self B args "resolveThreadId W args"
      "getHistory self (resolveThreadId W args)" req response]
  by (auto simp: runHttp_respond) (simp_all add: runHttp_def thrown_def)

theorem started_events_follow_response_witness:
  "take 2 (yielded (runHttp demo_exec demo_builtins hi_world demo_args)) =
     [Stringified (ThreadStarted ''thread_1''), Stringified TurnStarted] \<and>
   requests (runHttp demo_exec demo_builtins hi_world demo_args) = [demo_request] \<and>
   yielded (runHttp demo_exec demo_builtins rejected_world demo_args) = [] \<and>
   outcome (runHttp demo_exec demo_builtins rejected_world demo_args) =
     Threw (Rejection ''ECONNREFUSED'')"
proof -
  have tid: "resolveThreadId hi_world demo_args = ''thread_1''"
    by code_simp
  have p1: "preflight demo_exec demo_builtins hi_world demo_args = Inr demo_request \<and>
      fetch hi_world demo_request = streaming [sse [created_text, hi_text, completed_text]]"
    by code_simp
  have p2: "preflight demo_exec demo_builtins rejected_world demo_args = Inr demo_request \<and>
      fetch rejected_world demo_request = FetchRejected (Rejection ''ECONNREFUSED'')"
    by code_simp
  from started_events_follow_response[where self = demo_exec and B = demo_builtins
      and W = hi_world and args = demo_args and req = demo_request
      and response = "\<lparr>ok = True, status = 200, response_text = None,
          body = Some (chunked [sse [created_text, hi_text, completed_text]])\<rparr>"] p1 tid
  have a: "take 2 (yielded (runHttp demo_exec demo_builtins hi_world demo_args)) =
     [Stringified (ThreadStarted ''thread_1''), Stringified TurnStarted] \<and>
   requests (runHttp demo_exec demo_builtins hi_world demo_args) = [demo_request]"
    by (simp add: streaming_def)
  from started_events_follow_response[where self = demo_exec and B = demo_builtins
      and W = rejected_world and args = demo_args and req = demo_request
      and e = "Rejection ''ECONNREFUSED''"] p2
  have b: "yielded (runHttp demo_exec demo_builtins rejected_world demo_args) = [] \<and>
   outcome (runHttp demo_exec demo_builtins rejected_world demo_args) =
     Threw (Rejection ''ECONNREFUSED'')"
    by simp
  from a b show ?thesis by blast
qed

section \<open>The request replays the history\<close>






section \<open>Usage\<close>

lemma Number_of_number: "Number_of B (JNumber n) = Inr n"
  by (simp add: Number_of_def)

lemma Number_of_cases:
  "(Number_of B v = Inl TypeError \<and> unconvertible v) \<or>
   ((\<exists>n. Number_of B v = Inr n) \<and> \<not> unconvertible v)"
  by (cases v) (simp_all add: Number_of_def)

lemma orElse_nullish: "nullish x \<Longrightarrow> orElse x d = d"
  by (auto simp: nullish_def orElse_def)

lemma orElse_value: "x = Some v \<Longrightarrow> v \<noteq> JNull \<Longrightarrow> orElse x d = v"
  by (cases v) (simp_all add: orElse_def)

lemma parseUsage_Inr:
  assumes "parseUsage B u = Inr usg"
  shows "Number_of B (orElse (optProp u ''input_tokens'') (JNumber (Num 0))) =
           Inr (input_tokens usg)"
    and "Number_of B (orElse (optProp (optProp u ''input_tokens_details'') ''cached_tokens'')
           (JNumber (Num 0))) = Inr (cached_input_tokens usg)"
    and "Number_of B (orElse (optProp u ''output_tokens'') (JNumber (Num 0))) =
           Inr (output_tokens usg)"
  using assms by (auto simp: parseUsage_def split: sum.splits)

text \<open>
  C8, as stated, fails on the code. The fields are the upstream values passed through
  \<^verbatim>\<open>Number\<close>, with no check: a negative upstream value gives a negative field. And
  \<^verbatim>\<open>Number\<close> throws on an object with a \<^verbatim>\<open>toString\<close> key: then no \<^verbatim>\<open>turn.completed\<close> is
  yielded at all.
\<close>

theorem negative_usage_counterexample:
  "handleEvent demo_builtins None demo_state (completed_event negative_usage) =
     ([Stringified (TurnCompleted
         \<lparr>input_tokens = Num (- 5), cached_input_tokens = Num 0, output_tokens = Num 0\<rparr>)],
      Inr (demo_state\<lparr>completed := True\<rparr>)) \<and>
   \<not> is_nonneg_int (Num (- 5)) \<and>
   handleEvent demo_builtins None demo_state (completed_event unconvertible_usage) =
     ([], Inl TypeError)"
  by code_simp

text \<open>
  C8, amended. A response-completion event whose usage can be converted yields
  \<^verbatim>\<open>turn.completed\<close> with the usage that \<^verbatim>\<open>parseUsage\<close> gives for \<^verbatim>\<open>response.usage\<close>, and sets
  the flag of completion; when the conversion throws, the loop throws and yields nothing.
  Each field is \<^verbatim>\<open>Number\<close> of its upstream value: 0 when the value is absent or null, the
  value itself when it is a number, whatever its sign. The conversion throws exactly when
  one of the three values cannot be converted, as an object with a \<^verbatim>\<open>toString\<close> key. The
  cached tokens come from \<^verbatim>\<open>input_tokens_details.cached_tokens\<close>: 42 input tokens, 12
  cached tokens and 5 output tokens give the usage 42, 12, 5.
\<close>

theorem usage_of_completion:
  "(event_type ev = Some (JString ''response.completed'') \<and>
    parseUsage B (optProp (getProp ev ''response'') ''usage'') = Inr usg \<longrightarrow>
      handleEvent B sig st ev =
        ([Stringified (TurnCompleted usg)], Inr (st\<lparr>completed := True\<rparr>))) \<and>
   (event_type ev = Some (JString ''response.completed'') \<and>
    parseUsage B (optProp (getProp ev ''response'') ''usage'') = Inl e \<longrightarrow>
      handleEvent B sig st ev = ([], Inl e)) \<and>
   (parseUsage B u = Inr usg \<longrightarrow>
      (nullish (optProp u ''input_tokens'') \<longrightarrow> input_tokens usg = Num 0) \<and>
      (optProp u ''input_tokens'' = Some (JNumber i) \<longrightarrow> input_tokens usg = i) \<and>
      (optProp u ''input_tokens'' = Some v \<and> v \<noteq> JNull \<longrightarrow>
         Number_of B v = Inr (input_tokens usg)) \<and>
      (nullish (optProp (optProp u ''input_tokens_details'') ''cached_tokens'') \<longrightarrow>
         cached_input_tokens usg = Num 0) \<and>
      (optProp (optProp u ''input_tokens_details'') ''cached_tokens'' = Some (JNumber c) \<longrightarrow>
         cached_input_tokens usg = c) \<and>
      (optProp (optProp u ''input_tokens_details'') ''cached_tokens'' = Some v \<and> v \<noteq> JNull \<longrightarrow>
         Number_of B v = Inr (cached_input_tokens usg)) \<and>
      (nullish (optProp u ''output_tokens'') \<longrightarrow> output_tokens usg = Num 0) \<and>
      (optProp u ''output_tokens'' = Some (JNumber out) \<longrightarrow> output_tokens usg = out) \<and>
      (optProp u ''output_tokens'' = Some v \<and> v \<noteq> JNull \<longrightarrow>
         Number_of B v = Inr (output_tokens usg))) \<and>
   (\<not> list_ex unconvertible (usage_values u) \<longrightarrow> (\<exists>usg'. parseUsage B u = Inr usg')) \<and>
   (list_ex unconvertible (usage_values u) \<longrightarrow> parseUsage B u = Inl TypeError) \<and>
   (optProp u ''input_tokens'' = Some (JObject kvs) \<and> map_of kvs ''toString'' = Some t \<longrightarrow>
      parseUsage B u = Inl TypeError) \<and>
   (optProp u ''input_tokens'' = Some (JNumber i) \<and>
    optProp (optProp u ''input_tokens_details'') ''cached_tokens'' = Some (JNumber c) \<and>
    optProp u ''output_tokens'' = Some (JNumber out) \<longrightarrow>
      parseUsage B u = Inr \<lparr>input_tokens = i, cached_input_tokens = c, output_tokens = out\<rparr>) \<and>
   parseUsage B (Some (JObject demo_usage)) =
     Inr \<lparr>input_tokens = Num 42, cached_input_tokens = Num 12, output_tokens = Num 5\<rparr>"
    (is "?A \<and> ?B \<and> ?C \<and> ?D \<and> ?E \<and> ?F \<and> ?G \<and> ?H")
proof -
  have a: ?A
    by (auto simp: handleEvent_def event_type_def)
  have b: ?B
    by (auto simp: handleEvent_def event_type_def)
  have c: ?C
  proof (intro impI)
    assume p: "parseUsage B u = Inr usg"
    note n = parseUsage_Inr[OF p]
    show "(nullish (optProp u ''input_tokens'') \<longrightarrow> input_tokens usg = Num 0) \<and>
      (optProp u ''input_tokens'' = Some (JNumber i) \<longrightarrow> input_tokens usg = i) \<and>
      (optProp u ''input_tokens'' = Some v \<and> v \<noteq> JNull \<longrightarrow>
         Number_of B v = Inr (input_tokens usg)) \<and>
      (nullish (optProp (optProp u ''input_tokens_details'') ''cached_tokens'') \<longrightarrow>
         cached_input_tokens usg = Num 0) \<and>
      (optProp (optProp u ''input_tokens_details'') ''cached_tokens'' = Some (JNumber c) \<longrightarrow>
         cached_input_tokens usg = c) \<and>
      (optProp (optProp u ''input_tokens_details'') ''cached_tokens'' = Some v \<and> v \<noteq> JNull \<longrightarrow>
         Number_of B v = Inr (cached_input_tokens usg)) \<and>
      (nullish (optProp u ''output_tokens'') \<longrightarrow> output_tokens usg = Num 0) \<and>
      (optProp u ''output_tokens'' = Some (JNumber out) \<longrightarrow> output_tokens usg = out) \<and>
      (optProp u ''output_tokens'' = Some v \<and> v \<noteq> JNull \<longrightarrow>
         Number_of B v = Inr (output_tokens usg))"
      using n
      by (auto simp: orElse_nullish orElse_value Number_of_number)
  qed
  have d: ?D
    using parseUsage_total[of u B] by blast
  have e: ?E
    using Number_of_cases[of B "orElse (optProp u ''input_tokens'') (JNumber (Num 0))"]
      Number_of_cases[of B "orElse (optProp (optProp u ''input_tokens_details'') ''cached_tokens'')
        (JNumber (Num 0))"]
      Number_of_cases[of B "orElse (optProp u ''output_tokens'') (JNumber (Num 0))"]
    by (auto simp: parseUsage_def usage_values_def)
  have f: ?F
  proof (intro impI)
    assume x: "optProp u ''input_tokens'' = Some (JObject kvs) \<and> map_of kvs ''toString'' = Some t"
    then have "Number_of B (orElse (optProp u ''input_tokens'') (JNumber (Num 0))) = Inl TypeError"
      by (simp add: orElse_def Number_of_def)
    then show "parseUsage B u = Inl TypeError"
      by (simp add: parseUsage_def)
  qed
  have g: ?G
    by (auto simp: parseUsage_def orElse_def Number_of_def)
  have h: ?H
    by (simp add: parseUsage_def demo_usage_def optProp_def orElse_def Number_of_def)
  from a b c d e f g h show ?thesis by blast
qed

theorem usage_of_completion_witness:
  "handleEvent demo_builtins None demo_state (completed_event demo_usage) =
     ([Stringified (TurnCompleted
         \<lparr>input_tokens = Num 42, cached_input_tokens = Num 12, output_tokens = Num 5\<rparr>)],
      Inr (demo_state\<lparr>completed := True\<rparr>)) \<and>
   (\<exists>usg. parseUsage demo_builtins (Some (JObject negative_usage)) = Inr usg \<and>
      input_tokens usg = Num (- 5) \<and> cached_input_tokens usg = Num 0 \<and>
      output_tokens usg = Num 0) \<and>
   parseUsage demo_builtins (Some (JObject unconvertible_usage)) = Inl TypeError"
proof -
  let ?good = "\<lparr>input_tokens = Num 42, cached_input_tokens = Num 12, output_tokens = Num 5\<rparr>"
  have t: "event_type (completed_event demo_usage) = Some (JString ''response.completed'') \<and>
      optProp (getProp (completed_event demo_usage) ''response'') ''usage'' =
        Some (JObject demo_usage)"
    by code_simp
  from usage_of_completion[where B = demo_builtins and ev = "completed_event demo_usage"
      and usg = ?good and sig = None and st = demo_state] t
  have a: "handleEvent demo_builtins None demo_state (completed_event demo_usage) =
     ([Stringified (TurnCompleted ?good)], Inr (demo_state\<lparr>completed := True\<rparr>))"
    by simp
  let ?u = "Some (JObject negative_usage)"
  have n: "\<not> list_ex unconvertible (usage_values ?u) \<and>
      optProp ?u ''input_tokens'' = Some (JNumber (Num (- 5))) \<and>
      nullish (optProp (optProp ?u ''input_tokens_details'') ''cached_tokens'') \<and>
      nullish (optProp ?u ''output_tokens'')"
    by code_simp
  from usage_of_completion[where B = demo_builtins and u = ?u] n
  obtain usg where usg: "parseUsage demo_builtins ?u = Inr usg"
    by blast
  from usage_of_completion[where B = demo_builtins and u = ?u and usg = usg
      and i = "Num (- 5)"] n usg
  have b: "input_tokens usg = Num (- 5) \<and> cached_input_tokens usg = Num 0 \<and>
      output_tokens usg = Num 0"
    by blast
  have x: "list_ex unconvertible (usage_values (Some (JObject unconvertible_usage)))"
    by code_simp
  from usage_of_completion[where B = demo_builtins and u = "Some (JObject unconvertible_usage)"] x
  have c: "parseUsage demo_builtins (Some (JObject unconvertible_usage)) = Inl TypeError"
    by blast
  from a usg b c show ?thesis by blast
qed

section \<open>The trust check\<close>

lemma run_untrusted:
  assumes "workingDirectory args = Some wd" and "wd \<noteq> []"
    and "skipGitRepoCheck args \<noteq> Some True"
    and "\<not> existsSync W (path_join W wd ''.git'')"
  shows "run self B W args = thrown self [] [] (Error ''Not inside a trusted directory'')"
  using assms by (simp add: run_def untrusted_def truthy_def)

text \<open>
  C9. With a working directory (a non-empty string) in which there is no \<^verbatim>\<open>.git\<close>, and
  without the skip flag, the call throws \<^verbatim>\<open>Not inside a trusted directory\<close> at once:
  nothing is yielded and no process is spawned.
\<close>

theorem untrusted_directory_fails_before_spawn:
  assumes "workingDirectory args = Some wd" and "wd \<noteq> []"
    and "skipGitRepoCheck args \<noteq> Some True"
    and "\<not> existsSync W (path_join W wd ''.git'')"
  shows "outcome (run self B W args) = Threw (Error ''Not inside a trusted directory'') \<and>
         yielded (run self B W args) = [] \<and> spawns (run self B W args) = []"
  using run_untrusted[OF assms] by (simp add: thrown_def)

theorem untrusted_directory_fails_before_spawn_witness:
  "outcome (run demo_exec demo_builtins succeeding_world untrusted_process_args) =
     Threw (Error ''Not inside a trusted directory'') \<and>
   yielded (run demo_exec demo_builtins succeeding_world untrusted_process_args) = [] \<and>
   spawns (run demo_exec demo_builtins succeeding_world untrusted_process_args) = []"
proof -
  have h: "workingDirectory untrusted_process_args = Some ''/tmp/work''"
    "''/tmp/work'' \<noteq> []"
    "skipGitRepoCheck untrusted_process_args \<noteq> Some True"
    "\<not> existsSync succeeding_world (path_join succeeding_world ''/tmp/work'' ''.git'')"
    by (simp_all add: untrusted_process_args_def process_args_def demo_args_def
        succeeding_world_def demo_world_def)
  from untrusted_directory_fails_before_spawn[OF h] show ?thesis .
qed

text \<open>
  C10. The trust check comes before the choice of the transport: with a remote endpoint,
  such a working directory and no skip flag, the call throws the same error and sends no
  request, although with the skip flag the same arguments are served by the HTTP
  transport.
\<close>

theorem trust_check_precedes_transport_selection:
  assumes "truthy (baseUrl args)"
    and "workingDirectory args = Some wd" and "wd \<noteq> []"
    and "skipGitRepoCheck args \<noteq> Some True"
    and "\<not> existsSync W (path_join W wd ''.git'')"
  shows "outcome (run self B W args) = Threw (Error ''Not inside a trusted directory'') \<and>
         yielded (run self B W args) = [] \<and>
         requests (run self B W args) = [] \<and>
         run self B W (args\<lparr>skipGitRepoCheck := Some True\<rparr>) =
           runHttp self B W (args\<lparr>skipGitRepoCheck := Some True\<rparr>)"
proof -
  have "run self B W args = thrown self [] [] (Error ''Not inside a trusted directory'')"
    using assms(2-5) by (rule run_untrusted)
  moreover have "run self B W (args\<lparr>skipGitRepoCheck := Some True\<rparr>) =
           runHttp self B W (args\<lparr>skipGitRepoCheck := Some True\<rparr>)"
    using assms(1) by (simp add: run_def untrusted_def)
  ultimately show ?thesis by (simp add: thrown_def)
qed

theorem trust_check_precedes_transport_selection_witness:
  "outcome (run demo_exec demo_builtins hi_world untrusted_http_args) =
     Threw (Error ''Not inside a trusted directory'') \<and>
   yielded (run demo_exec demo_builtins hi_world untrusted_http_args) = [] \<and>
   requests (run demo_exec demo_builtins hi_world untrusted_http_args) = [] \<and>
   run demo_exec demo_builtins hi_world (untrusted_http_args\<lparr>skipGitRepoCheck := Some True\<rparr>) =
     runHttp demo_exec demo_builtins hi_world (untrusted_http_args\<lparr>skipGitRepoCheck := Some True\<rparr>)"
proof -
  have h: "truthy (baseUrl untrusted_http_args)"
    "workingDirectory untrusted_http_args = Some ''/tmp/work''"
    "''/tmp/work'' \<noteq> []"
    "skipGitRepoCheck untrusted_http_args \<noteq> Some True"
    "\<not> existsSync hi_world (path_join hi_world ''/tmp/work'' ''.git'')"
    by (simp_all add: untrusted_http_args_def demo_args_def truthy_def
        hi_world_def demo_world_def)
  from trust_check_precedes_transport_selection[OF h] show ?thesis .
qed

end
